theory Spec2Isabelle
  imports Main "HOL-Library.AList"
begin

section \<open>Python values\<close>

text \<open>
  A Python \<open>str\<close> is a sequence of Unicode code points; the Braille block lies above
  U+00FF, so a string is a list of code points and not a list of 8-bit characters.
  \<open>str\<close> turns an ASCII literal into its code points.
\<close>

type_synonym pystr = "nat list"

definition str :: "string \<Rightarrow> pystr" where
  "str s = map of_char s"

text \<open>Exceptions of the Python code are values; \<open>Inl\<close> carries the exception.\<close>

datatype py_error = ValueError | KeyError | IndexError | TypeError

definition bindE :: "py_error + 'a \<Rightarrow> ('a \<Rightarrow> py_error + 'b) \<Rightarrow> py_error + 'b" where
  "bindE x f = (case x of Inl e \<Rightarrow> Inl e | Inr v \<Rightarrow> f v)"

fun foldE :: "('a \<Rightarrow> 's \<Rightarrow> py_error + 's) \<Rightarrow> 'a list \<Rightarrow> 's \<Rightarrow> py_error + 's" where
  "foldE f [] s = Inr s"
| "foldE f (x # xs) s = bindE (f x s) (foldE f xs)"

fun mapE :: "('a \<Rightarrow> py_error + 'b) \<Rightarrow> 'a list \<Rightarrow> py_error + 'b list" where
  "mapE f [] = Inr []"
| "mapE f (x # xs) = bindE (f x) (\<lambda>y. bindE (mapE f xs) (\<lambda>ys. Inr (y # ys)))"

text \<open>
  A Python \<open>dict\<close> keeps its entries in insertion order, one entry per key: an
  association list in which \<open>d[k] = v\<close> is \<open>AList.update k v d\<close>. \<open>dict_update d kvs\<close>
  is \<open>d.update(kvs)\<close>, \<open>dict_of kvs\<close> a dict display or comprehension producing
  the pairs \<open>kvs\<close> in this order, \<open>dict_get d k\<close> the subscription \<open>d[k]\<close>.
\<close>

type_synonym ('k, 'v) dict = "('k \<times> 'v) list"

definition dict_update :: "('k, 'v) dict \<Rightarrow> ('k \<times> 'v) list \<Rightarrow> ('k, 'v) dict" where
  "dict_update d kvs = fold (\<lambda>kv. AList.update (fst kv) (snd kv)) kvs d"

definition dict_of :: "('k \<times> 'v) list \<Rightarrow> ('k, 'v) dict" where
  "dict_of kvs = dict_update [] kvs"

definition dict_get :: "('k, 'v) dict \<Rightarrow> 'k \<Rightarrow> py_error + 'v" where
  "dict_get d k = (case map_of d k of None \<Rightarrow> Inl KeyError | Some v \<Rightarrow> Inr v)"

text \<open>
  \<open>str.upper()\<close> on ASCII strings, the only ones the program applies it to (the
  alphabet in \<open>BrailleTokeniser.setup\<close>, the letters \<open>a\<close> to \<open>z\<close> in
  \<open>BrailleTranslator.setup\<close>): the lower-case letters change case, every other code
  point below 128 is left as it is.

  \<open>str.lower()\<close> is applied by \<open>BrailleTranslator.transform\<close> to any text a caller
  passes in. It follows the Unicode case tables of the interpreter, which are no part of
  the repository (it lowers letters outside ASCII, depends on the position of a letter
  and can change the length of a string), so the translator below takes it as the
  parameter \<open>lower\<close>, of which nothing is assumed.
\<close>

definition upper_cp :: "nat \<Rightarrow> nat" where
  "upper_cp c = (if 97 \<le> c \<and> c \<le> 122 then c - 32 else c)"

definition upper :: "pystr \<Rightarrow> pystr" where
  "upper s = map upper_cp s"

text \<open>
  \<open>txt.find(x)\<close>: the lowest index at which \<open>x\<close> occurs in \<open>txt\<close>; \<open>None\<close> is
  Python's \<open>-1\<close>.
\<close>

fun find :: "pystr \<Rightarrow> pystr \<Rightarrow> nat option" where
  "find [] x = (if x = [] then Some 0 else None)"
| "find (c # cs) x =
     (if take (length x) (c # cs) = x then Some 0 else map_option Suc (find cs x))"

section \<open>braille\_unicode.py\<close>

text \<open>
  The format specifications \<open>02b\<close>, \<open>04b\<close>, \<open>1\<close> and \<open>1X\<close> of the f-strings:
  the digits of \<open>n\<close> in base \<open>b\<close>, upper case above 9, padded on the left with
  \<open>fill\<close> to the width \<open>w\<close>.
\<close>

fun digits_base :: "nat \<Rightarrow> nat \<Rightarrow> nat list" where
  "digits_base b n = (if b < 2 \<or> n < b then [n] else digits_base b (n div b) @ [n mod b])"

declare digits_base.simps [simp del]

definition digit_char :: "nat \<Rightarrow> nat" where
  "digit_char d = (if d < 10 then 48 + d else 55 + d)"

definition format_int :: "nat \<Rightarrow> nat \<Rightarrow> nat \<Rightarrow> nat \<Rightarrow> pystr" where
  "format_int b w fill n =
     (let ds = map digit_char (digits_base b n)
      in replicate (w - length ds) fill @ ds)"

text \<open>
  \<open>int(s, 16)\<close> on a string of hexadecimal digits (the only strings it is given
  here), \<open>ValueError\<close> otherwise; \<open>chr(n)\<close> with its range check.
\<close>

definition hex_value :: "nat \<Rightarrow> nat option" where
  "hex_value c =
     (if 48 \<le> c \<and> c \<le> 57 then Some (c - 48)
      else if 65 \<le> c \<and> c \<le> 70 then Some (c - 55)
      else if 97 \<le> c \<and> c \<le> 102 then Some (c - 87)
      else None)"

definition hex_step :: "nat \<Rightarrow> nat \<Rightarrow> py_error + nat" where
  "hex_step c acc =
     (case hex_value c of None \<Rightarrow> Inl ValueError | Some d \<Rightarrow> Inr (16 * acc + d))"

definition int16 :: "pystr \<Rightarrow> py_error + nat" where
  "int16 s = (if s = [] then Inl ValueError else foldE hex_step s 0)"

definition chr :: "nat \<Rightarrow> py_error + pystr" where
  "chr n = (if n < 1114112 then Inr [n] else Inl ValueError)"

text \<open>The body of the two nested loops of \<open>get_conversion_maps\<close>, then the loops.\<close>

definition conversion_step ::
  "nat \<Rightarrow> nat \<Rightarrow> (pystr, pystr) dict \<times> (pystr, pystr) dict \<Rightarrow>
     py_error + ((pystr, pystr) dict \<times> (pystr, pystr) dict)" where
  "conversion_step page_i i maps =
     (let dot_str = rev (format_int 2 2 48 page_i @ format_int 2 4 48 i);
          dot_str = take 3 dot_str @ str '' '' @ drop 3 dot_str;
          uni_hex_str = str ''28'' @ format_int 10 1 32 page_i @ format_int 16 1 32 i
      in bindE (int16 uni_hex_str) (\<lambda>n.
         bindE (chr n) (\<lambda>uni_char.
           Inr (AList.update dot_str uni_char (fst maps),
                AList.update uni_char dot_str (snd maps)))))"

definition conversion_page ::
  "nat \<Rightarrow> (pystr, pystr) dict \<times> (pystr, pystr) dict \<Rightarrow>
     py_error + ((pystr, pystr) dict \<times> (pystr, pystr) dict)" where
  "conversion_page page_i maps = foldE (conversion_step page_i) [0..<16] maps"

definition get_conversion_maps ::
  "py_error + ((pystr, pystr) dict \<times> (pystr, pystr) dict)" where
  "get_conversion_maps = foldE conversion_page [0..<4] ([], [])"

section \<open>braille\_fsm.py: the engine\<close>

text \<open>
  A tag or a state name is a \<open>str\<close> or \<open>None\<close>. A token is \<open>(txt, tag)\<close>; an
  output record is a token whose tag is the state it was flushed in. A transition is
  \<open>(in, out, state)\<close>, its output list a list of strings.
\<close>

type_synonym pyname = "pystr option"

type_synonym token = "pystr \<times> pyname"

type_synonym transition = "token list \<times> pystr list \<times> pyname"

text \<open>
  \<open>FSM.__init__\<close> sets \<open>self.end = '|'\<close>, and nothing assigns it again. The engine
  tests an output entry with \<open>txt is self.end\<close>, which compares objects, not values.
  In CPython there is one object for each one-character string below \<open>U+0100\<close>: every
  string whose value is \<open>|\<close>, wherever it was made, is the object \<open>self.end\<close>, and
  a string with another value is another object. So the test holds exactly for the
  entries whose value is \<open>|\<close>.
\<close>

definition end_marker :: pystr where
  "end_marker = str ''|''"

definition is_end :: "pystr \<Rightarrow> bool" where
  "is_end txt = (txt = end_marker)"

text \<open>
  An instance of \<open>FSM\<close>: its attributes \<open>states\<close> and \<open>start_state\<close>, and the two
  methods a subclass overrides. \<open>states[name]\<close> is the transition table itself (the
  source wraps it in a dict with the single key \<open>'transitions'\<close>).
\<close>

record fsm =
  states :: "(pystr, (pystr, transition) dict) dict"
  start_state :: pyname
  transform :: "pystr \<Rightarrow> pyname \<Rightarrow> pyname \<Rightarrow> transition option"
  postprocess :: "pystr option \<Rightarrow> pyname \<Rightarrow> pyname \<Rightarrow> token list"

definition FSM_transform :: "pystr \<Rightarrow> pyname \<Rightarrow> pyname \<Rightarrow> transition option" where
  "FSM_transform txt tag state = None"

definition FSM_postprocess :: "pystr option \<Rightarrow> pyname \<Rightarrow> pyname \<Rightarrow> token list" where
  "FSM_postprocess txt tag state = (case txt of None \<Rightarrow> [] | Some t \<Rightarrow> [(t, state)])"

definition add_state :: "pystr \<Rightarrow> (pystr, transition) dict list \<Rightarrow> fsm \<Rightarrow> fsm" where
  "add_state name transition_map_list self =
     self\<lparr>states := AList.update name
        (fold (\<lambda>transition_map t. dict_update t transition_map) transition_map_list [])
        (states self)\<rparr>"

text \<open>\<open>state in self.states\<close> together with \<open>self.states[state]['transitions']\<close>.\<close>

definition transitions_of :: "fsm \<Rightarrow> pyname \<Rightarrow> (pystr, transition) dict option" where
  "transitions_of self state =
     (case state of None \<Rightarrow> None | Some name \<Rightarrow> map_of (states self) name)"

text \<open>
  The \<open>for txt in out_\<close> loop: the end marker flushes the buffer through
  \<open>postprocess\<close>, any other entry is appended to the buffer.
\<close>

fun emit ::
  "fsm \<Rightarrow> pyname \<Rightarrow> pyname \<Rightarrow> pystr list \<Rightarrow> pystr option \<times> token list \<Rightarrow>
     pystr option \<times> token list" where
  "emit self tag state [] acc = acc"
| "emit self tag state (entry # outs) acc =
     (if is_end entry
      then emit self tag state outs (None, snd acc @ postprocess self (fst acc) tag state)
      else emit self tag state outs
             (Some (case fst acc of None \<Rightarrow> entry | Some out_txt \<Rightarrow> out_txt @ entry),
              snd acc))"

text \<open>The two messages the engine prints, kept in the order they are printed.\<close>

datatype diagnostic = Undefined_state pyname | Not_recognised pystr pyname

definition lookup_transition :: "fsm \<Rightarrow> (pystr, transition) dict \<Rightarrow> token \<Rightarrow> pyname \<Rightarrow> transition option" where
  "lookup_transition self tr in_tok state =
     (case map_of tr (fst in_tok) of
        Some result \<Rightarrow> Some result
      | None \<Rightarrow> transform self (fst in_tok) (snd in_tok) state)"

text \<open>
  The \<open>while\<close> loop of \<open>process\<close> with what follows it. The loop may run forever:
  \<open>None\<close> is a run that does not return. A run that returns gives the messages
  printed and the returned value, \<open>None\<close> there being Python's \<open>None\<close>.
\<close>

partial_function (option) process_loop ::
  "fsm \<Rightarrow> token list \<Rightarrow> pystr option \<Rightarrow> token list \<Rightarrow> pyname \<Rightarrow> diagnostic list \<Rightarrow>
     (diagnostic list \<times> token list option) option" where
  "process_loop self in_seq out_txt out_seq state printed =
     (case in_seq of
        [] \<Rightarrow>
          Some (printed,
            Some (case out_txt of None \<Rightarrow> out_seq | Some t \<Rightarrow> out_seq @ [(t, state)]))
      | in_tok # rest \<Rightarrow>
          (case transitions_of self state of
             None \<Rightarrow> Some (printed @ [Undefined_state state], None)
           | Some tr \<Rightarrow>
               (case lookup_transition self tr in_tok state of
                  None \<Rightarrow>
                    process_loop self rest out_txt out_seq state
                      (printed @ [Not_recognised (fst in_tok) state])
                | Some result \<Rightarrow>
                    process_loop self (fst result @ rest)
                      (fst (emit self (snd in_tok) state (fst (snd result)) (out_txt, out_seq)))
                      (snd (emit self (snd in_tok) state (fst (snd result)) (out_txt, out_seq)))
                      (snd (snd result)) printed)))"

text \<open>\<open>process\<close> takes a string, read as its characters without tags, or tokens.\<close>

datatype in_toks = Chars pystr | Tokens "token list"

definition untagged :: "nat \<Rightarrow> token" where
  "untagged t = ([t], None)"

definition process :: "fsm \<Rightarrow> in_toks \<Rightarrow> (diagnostic list \<times> token list option) option" where
  "process self toks =
     process_loop self (case toks of Chars s \<Rightarrow> map untagged s | Tokens ts \<Rightarrow> ts)
       None [] (start_state self) []"

text \<open>\<open>FSM.__init__\<close> before \<open>setup\<close>, for a class with the given two methods.\<close>

definition FSM_init ::
  "(pystr \<Rightarrow> pyname \<Rightarrow> pyname \<Rightarrow> transition option) \<Rightarrow>
   (pystr option \<Rightarrow> pyname \<Rightarrow> pyname \<Rightarrow> token list) \<Rightarrow> fsm" where
  "FSM_init tf pp = \<lparr>states = [], start_state = None, transform = tf, postprocess = pp\<rparr>"


section \<open>braille\_fsm.py: the tags of BrailleFSM\<close>

definition whitespace_tag :: pystr where "whitespace_tag = str ''whitespace''"
definition lower_tag :: pystr where "lower_tag = str ''lower_str''"
definition upper_tag :: pystr where "upper_tag = str ''upper_str''"
definition mixed_tag :: pystr where "mixed_tag = str ''mixed_str''"
definition alphanum_tag :: pystr where "alphanum_tag = str ''alphanum''"
definition number_tag :: pystr where "number_tag = str ''number''"
definition punctuation_tag :: pystr where "punctuation_tag = str ''punctuation''"

section \<open>braille\_fsm.py: BrailleTokeniser\<close>

definition lower_chars :: pystr where "lower_chars = str ''abcdefghijklmnopqrstuvwxyz''"
definition upper_chars :: pystr where "upper_chars = upper lower_chars"
definition digit_chars :: pystr where "digit_chars = str ''0123456789''"
definition white_chars :: pystr where "white_chars = [9, 32]"
definition punct_chars :: pystr where "punct_chars = str '',.;:''"

text \<open>
  The two shapes of the comprehensions of \<open>setup\<close>, for one character \<open>k\<close>:
  \<open>k: ([], [k], tag)\<close> and \<open>k: ([], [self.end, k], tag)\<close>.
\<close>

definition extend_run :: "pystr \<Rightarrow> nat \<Rightarrow> pystr \<times> transition" where
  "extend_run tag k = ([k], ([], [[k]], Some tag))"

definition start_run :: "pystr \<Rightarrow> nat \<Rightarrow> pystr \<times> transition" where
  "start_run tag k = ([k], ([], [end_marker, [k]], Some tag))"

definition BrailleTokeniser_setup :: "fsm \<Rightarrow> fsm" where
  "BrailleTokeniser_setup self =
     (add_state number_tag
        [dict_of (map (extend_run alphanum_tag) (lower_chars @ upper_chars)),
         dict_of (map (extend_run number_tag) digit_chars),
         dict_of (map (start_run whitespace_tag) white_chars),
         dict_of (map (start_run punctuation_tag) punct_chars)]
     (add_state alphanum_tag
        [dict_of (map (extend_run alphanum_tag) (lower_chars @ upper_chars @ digit_chars)),
         dict_of (map (start_run whitespace_tag) white_chars),
         dict_of (map (start_run punctuation_tag) punct_chars)]
     (add_state mixed_tag
        [dict_of (map (extend_run mixed_tag) (lower_chars @ upper_chars)),
         dict_of (map (extend_run alphanum_tag) digit_chars),
         dict_of (map (start_run whitespace_tag) white_chars),
         dict_of (map (start_run punctuation_tag) punct_chars)]
     (add_state upper_tag
        [dict_of (map (extend_run mixed_tag) lower_chars),
         dict_of (map (extend_run upper_tag) upper_chars),
         dict_of (map (extend_run alphanum_tag) digit_chars),
         dict_of (map (start_run whitespace_tag) white_chars),
         dict_of (map (start_run punctuation_tag) punct_chars)]
     (add_state lower_tag
        [dict_of (map (extend_run lower_tag) lower_chars),
         dict_of (map (extend_run mixed_tag) upper_chars),
         dict_of (map (extend_run alphanum_tag) digit_chars),
         dict_of (map (start_run whitespace_tag) white_chars),
         dict_of (map (start_run punctuation_tag) punct_chars)]
     (add_state whitespace_tag
        [dict_of (map (start_run lower_tag) lower_chars),
         dict_of (map (start_run upper_tag) upper_chars),
         dict_of (map (start_run number_tag) digit_chars),
         dict_of (map (start_run whitespace_tag) white_chars),
         dict_of (map (start_run punctuation_tag) punct_chars)]
     (add_state punctuation_tag
        [dict_of (map (extend_run punctuation_tag) punct_chars),
         dict_of (map (start_run lower_tag) lower_chars),
         dict_of (map (start_run upper_tag) upper_chars),
         dict_of (map (start_run number_tag) digit_chars),
         dict_of (map (start_run whitespace_tag) white_chars)]
        self)))))))
     \<lparr>start_state := Some whitespace_tag\<rparr>"

definition BrailleTokeniser :: fsm where
  "BrailleTokeniser = BrailleTokeniser_setup (FSM_init FSM_transform FSM_postprocess)"

section \<open>braille\_fsm.py: BrailleTranslator\<close>

definition default_state :: pystr where "default_state = str ''default''"

definition lower_codes :: "(pystr \<times> pystr) list" where
  "lower_codes =
     [(str ''a'', str ''100 000''), (str ''b'', str ''110 000''), (str ''c'', str ''100 100''),
      (str ''d'', str ''100 110''), (str ''e'', str ''100 010''), (str ''f'', str ''110 100''),
      (str ''g'', str ''110 110''), (str ''h'', str ''110 010''), (str ''i'', str ''010 100''),
      (str ''j'', str ''010 110''), (str ''k'', str ''101 000''), (str ''l'', str ''111 000''),
      (str ''m'', str ''101 100''), (str ''n'', str ''101 110''), (str ''o'', str ''101 010''),
      (str ''p'', str ''111 100''), (str ''q'', str ''111 110''), (str ''r'', str ''111 010''),
      (str ''s'', str ''011 100''), (str ''t'', str ''011 110''), (str ''u'', str ''101 001''),
      (str ''v'', str ''111 001''), (str ''w'', str ''010 111''), (str ''x'', str ''101 101''),
      (str ''y'', str ''101 111''), (str ''z'', str ''101 011'')]"

definition misc_codes :: "(pystr \<times> pystr) list" where
  "misc_codes =
     [(str '' '', str ''000 000''), (str '','', str ''010 000''), (str ''.'', str ''010 011''),
      (str ''for'', str ''111 111''), (str ''and'', str ''111 101''), (str ''the'', str ''011 101''),
      (str ''ed'', str ''110 101''), (str ''ing'', str ''001 101'')]"

definition swap_tokens :: "(pystr \<times> token list) list" where
  "swap_tokens =
     [(str ''tomorrow'', [(str ''tm'', Some lower_tag)]),
      (str ''friend'', [(str ''fr'', Some lower_tag)]),
      (str ''little'', [(str ''ll'', Some lower_tag)]),
      (str ''you'', [(str ''y'', Some lower_tag)]),
      (str ''like'', [(str ''l'', Some lower_tag)]),
      (str ''him'', [(str ''hm'', Some lower_tag)]),
      ([9], replicate 2 (str '' '', Some whitespace_tag))]"

text \<open>The bodies of the comprehensions of \<open>setup\<close>, one dict item each.\<close>

definition code_transition ::
  "(pystr, pystr) dict \<Rightarrow> pystr \<Rightarrow> pystr \<times> pystr \<Rightarrow> py_error + (pystr \<times> transition)" where
  "code_transition dots_to_uni state kv =
     bindE (dict_get dots_to_uni (snd kv)) (\<lambda>c. Inr (fst kv, ([], [c], Some state)))"

definition swap_transition :: "pystr \<Rightarrow> pystr \<times> token list \<Rightarrow> pystr \<times> transition" where
  "swap_transition state kv = (fst kv, (snd kv, [], Some state))"

definition upper_transition :: "pystr \<Rightarrow> pystr \<times> transition \<Rightarrow> pystr \<times> transition" where
  "upper_transition upper_code kv =
     (upper (fst kv),
      (fst (snd kv), upper_code # fst (snd (snd kv)), snd (snd (snd kv))))"

definition number_transition ::
  "(pystr, transition) dict \<Rightarrow> nat \<times> nat \<Rightarrow> py_error + (pystr \<times> transition)" where
  "number_transition lower_map ik =
     (if fst ik < length (str ''abcdefghij'')
      then bindE (dict_get lower_map [str ''abcdefghij'' ! fst ik]) (\<lambda>t. Inr ([snd ik], t))
      else Inl IndexError)"

definition uni_transition :: "pystr \<Rightarrow> pystr \<times> pystr \<Rightarrow> pystr \<times> transition" where
  "uni_transition state kv = (snd kv, ([], [snd kv], Some state))"

definition enumerate_str :: "pystr \<Rightarrow> (nat \<times> nat) list" where
  "enumerate_str s = zip [0..<length s] s"

definition dict_comprehension ::
  "('a \<Rightarrow> py_error + ('k \<times> 'v)) \<Rightarrow> 'a list \<Rightarrow> py_error + ('k, 'v) dict" where
  "dict_comprehension f items = bindE (mapE f items) (\<lambda>kvs. Inr (dict_of kvs))"

text \<open>
  \<open>transform\<close> reads the attributes \<open>upper_code\<close>, \<open>number_code\<close> and \<open>fragments\<close>
  that \<open>setup\<close> stores. \<open>split_fragment\<close> is its \<open>for x in self.fragments\<close> loop,
  \<open>None\<close> when the loop ends without returning.
\<close>

definition tagged :: "pyname \<Rightarrow> pystr \<Rightarrow> token" where
  "tagged tag t = (t, tag)"

definition nonempty :: "pystr \<Rightarrow> bool" where
  "nonempty t = (t \<noteq> [])"

fun split_fragment :: "pystr list \<Rightarrow> pystr \<Rightarrow> pyname \<Rightarrow> token list option" where
  "split_fragment [] txt tag = None"
| "split_fragment (x # xs) txt tag =
     (case find txt x of
        None \<Rightarrow> split_fragment xs txt tag
      | Some i \<Rightarrow>
          Some (map (tagged tag) (filter nonempty [take i txt, x, drop (i + length x) txt])))"

definition single_char :: "pyname \<Rightarrow> nat \<Rightarrow> token" where
  "single_char tag t = ([t], tag)"

definition BrailleTranslator_transform ::
  "(pystr \<Rightarrow> pystr) \<Rightarrow> pystr \<Rightarrow> pystr \<Rightarrow> pystr list \<Rightarrow>
     pystr \<Rightarrow> pyname \<Rightarrow> pyname \<Rightarrow> transition option" where
  "BrailleTranslator_transform lower upper_code number_code fragments txt tag state =
     (if tag = Some number_tag
      then Some ([(number_code, tag), (txt, Some lower_tag)], [], state)
      else if tag = Some upper_tag
      then Some ([(upper_code, tag), (upper_code, tag), (lower txt, Some lower_tag)], [], state)
      else (case split_fragment fragments txt tag of
              Some toks \<Rightarrow> Some (toks, [], state)
            | None \<Rightarrow> Some (map (single_char tag) txt, [], state)))"

text \<open>
  \<open>BrailleTranslator()\<close>: \<open>FSM.__init__\<close> and \<open>setup\<close>, for the interpreter's
  \<open>str.lower\<close>. \<open>translator_tables\<close> is the list handed to \<open>add_state\<close>, in its
  order.
\<close>

definition translator_tables ::
  "(pystr, pystr) dict \<Rightarrow> pystr \<Rightarrow> py_error + (pystr, transition) dict list" where
  "translator_tables dots_to_uni upper_code =
     bindE (dict_comprehension (code_transition dots_to_uni default_state) (dict_of lower_codes))
       (\<lambda>lower_map.
     bindE (dict_comprehension (code_transition dots_to_uni default_state) (dict_of misc_codes))
       (\<lambda>misc.
     bindE (dict_comprehension (number_transition lower_map) (enumerate_str (str ''1234567890'')))
       (\<lambda>number.
     Inr [lower_map,
          dict_of (map (upper_transition upper_code) lower_map),
          number,
          misc,
          dict_of (map (uni_transition default_state) dots_to_uni),
          dict_of (map (swap_transition default_state) (dict_of swap_tokens))])))"

definition BrailleTranslator :: "(pystr \<Rightarrow> pystr) \<Rightarrow> py_error + fsm" where
  "BrailleTranslator lower =
     bindE get_conversion_maps (\<lambda>maps.
     bindE (dict_get (fst maps) (str ''000 001'')) (\<lambda>upper_code.
     bindE (dict_get (fst maps) (str ''001 111'')) (\<lambda>number_code.
     bindE (translator_tables (fst maps) upper_code) (\<lambda>tables.
     Inr ((add_state default_state tables
             (FSM_init
                (BrailleTranslator_transform lower upper_code number_code
                   [str ''ed'', str ''ing''])
                FSM_postprocess))
          \<lparr>start_state := Some default_state\<rparr>)))))"

text \<open>\<open>BrailleTranslator().process(toks)\<close>.\<close>

definition translator_process ::
  "(pystr \<Rightarrow> pystr) \<Rightarrow> in_toks \<Rightarrow>
     (py_error + diagnostic list \<times> token list option) option" where
  "translator_process lower toks =
     (case BrailleTranslator lower of
        Inl e \<Rightarrow> Some (Inl e)
      | Inr btrn \<Rightarrow> map_option Inr (process btrn toks))"

section \<open>braille.py: the internal translation\<close>

text \<open>
  The branch of the driver that does not use liblouis: tokenise, translate, take the
  text of the first output record. \<open>len(None)\<close> and \<open>None[0]\<close> raise \<open>TypeError\<close>,
  \<open>[][0]\<close> raises \<open>IndexError\<close>.
\<close>

definition first_text :: "token list option \<Rightarrow> py_error + pystr" where
  "first_text unicode_dots =
     (case unicode_dots of
        None \<Rightarrow> Inl TypeError
      | Some [] \<Rightarrow> Inl IndexError
      | Some (r # rs) \<Rightarrow> Inr (fst r))"

definition translate_tokens :: "fsm \<Rightarrow> token list option \<Rightarrow> (py_error + pystr) option" where
  "translate_tokens btrn tokens =
     (case tokens of
        None \<Rightarrow> Some (Inl TypeError)
      | Some toks \<Rightarrow>
          (case process btrn (Tokens toks) of
             None \<Rightarrow> None
           | Some r \<Rightarrow> Some (first_text (snd r))))"

definition translate :: "(pystr \<Rightarrow> pystr) \<Rightarrow> pystr \<Rightarrow> (py_error + pystr) option" where
  "translate lower input_txt =
     (case BrailleTranslator lower of
        Inl e \<Rightarrow> Some (Inl e)
      | Inr btrn \<Rightarrow>
          (case process BrailleTokeniser (Chars input_txt) of
             None \<Rightarrow> None
           | Some r \<Rightarrow> translate_tokens btrn (snd r)))"

section \<open>Machines and tables used as examples\<close>

text \<open>
  A machine with the single state \<open>s\<close>, whose only transition, on \<open>a\<close>, writes
  \<open>x\<close> and moves to the state \<open>t\<close>, which has no table.
\<close>

definition dangling_fsm :: fsm where
  "dangling_fsm =
     (add_state (str ''s'') [dict_of [(str ''a'', ([], [str ''x''], Some (str ''t'')))]]
        (FSM_init FSM_transform FSM_postprocess))
     \<lparr>start_state := Some (str ''s'')\<rparr>"

text \<open>
  A machine with the single state \<open>s\<close>, whose only transition, on \<open>a\<close>, has the
  output list \<open>['x', '|', 'y']\<close> of three literal texts and stays in \<open>s\<close>.
\<close>

definition bar_fsm :: fsm where
  "bar_fsm =
     (add_state (str ''s'')
        [dict_of [(str ''a'', ([], [str ''x'', str ''|'', str ''y''], Some (str ''s'')))]]
        (FSM_init FSM_transform FSM_postprocess))
     \<lparr>start_state := Some (str ''s'')\<rparr>"

section \<open>The dot patterns and the Braille block\<close>

text \<open>
  The cell with offset \<open>n\<close> in the Braille block is \<open>U+2800 + n\<close>; dot \<open>k\<close> of
  its pattern is bit \<open>k - 1\<close> of \<open>n\<close>. \<open>six_dot_patterns\<close> are the strings
  \<open>abc def\<close> over \<open>0\<close> and \<open>1\<close>, \<open>braille_block\<close> the one-character strings
  from \<open>U+2800\<close> to \<open>U+283F\<close>.
\<close>

definition dot_pattern :: "nat \<Rightarrow> pystr" where
  "dot_pattern n =
     [48 + n mod 2, 48 + n div 2 mod 2, 48 + n div 4 mod 2, 32,
      48 + n div 8 mod 2, 48 + n div 16 mod 2, 48 + n div 32 mod 2]"

definition braille_cell :: "nat \<Rightarrow> pystr" where
  "braille_cell n = [10240 + n]"

definition d2u_item :: "nat \<Rightarrow> pystr \<times> pystr" where
  "d2u_item n = (dot_pattern n, braille_cell n)"
definition u2d_item :: "nat \<Rightarrow> pystr \<times> pystr" where
  "u2d_item n = (braille_cell n, dot_pattern n)"

definition bit_chars :: "nat set" where "bit_chars = {48, 49}"
definition six_dot_patterns :: "pystr set" where
  "six_dot_patterns =
     {[a, b, c, 32, d, e, f] | a b c d e f.
        a \<in> bit_chars \<and> b \<in> bit_chars \<and> c \<in> bit_chars \<and>
        d \<in> bit_chars \<and> e \<in> bit_chars \<and> f \<in> bit_chars}"
definition braille_block :: "pystr set" where
  "braille_block = {[c] | c. 10240 \<le> c \<and> c \<le> 10303}"

section \<open>The machine that \<open>BrailleTranslator.setup\<close> builds\<close>

text \<open>
  The cells that \<open>setup\<close> finds for its literals, as offsets in the Braille block, and
  the six tables it hands to \<open>add_state\<close>. That \<open>setup\<close> computes exactly these is
  proved below (\<open>BrailleTranslator_eq\<close>).
\<close>

definition cell_transition :: "pystr \<times> nat \<Rightarrow> pystr \<times> transition" where
  "cell_transition kn = (fst kn, ([], [braille_cell (snd kn)], Some default_state))"

definition letter_cells :: "(pystr \<times> nat) list" where
  "letter_cells =
     [(str ''a'', 1), (str ''b'', 3), (str ''c'', 9), (str ''d'', 25), (str ''e'', 17),
      (str ''f'', 11), (str ''g'', 27), (str ''h'', 19), (str ''i'', 10), (str ''j'', 26),
      (str ''k'', 5), (str ''l'', 7), (str ''m'', 13), (str ''n'', 29), (str ''o'', 21),
      (str ''p'', 15), (str ''q'', 31), (str ''r'', 23), (str ''s'', 14), (str ''t'', 30),
      (str ''u'', 37), (str ''v'', 39), (str ''w'', 58), (str ''x'', 45), (str ''y'', 61),
      (str ''z'', 53)]"

definition digit_cells :: "(pystr \<times> nat) list" where
  "digit_cells =
     [(str ''1'', 1), (str ''2'', 3), (str ''3'', 9), (str ''4'', 25), (str ''5'', 17),
      (str ''6'', 11), (str ''7'', 27), (str ''8'', 19), (str ''9'', 10), (str ''0'', 26)]"

definition misc_cells :: "(pystr \<times> nat) list" where
  "misc_cells =
     [(str '' '', 0), (str '','', 2), (str ''.'', 50), (str ''for'', 63), (str ''and'', 47),
      (str ''the'', 46), (str ''ed'', 43), (str ''ing'', 44)]"

definition lower_table :: "(pystr, transition) dict" where
  "lower_table = map cell_transition letter_cells"

definition upper_table :: "(pystr, transition) dict" where
  "upper_table = map (upper_transition (braille_cell 32)) lower_table"

definition number_table :: "(pystr, transition) dict" where
  "number_table = map cell_transition digit_cells"

definition misc_table :: "(pystr, transition) dict" where
  "misc_table = map cell_transition misc_cells"

definition uni_table :: "(pystr, transition) dict" where
  "uni_table = map (uni_transition default_state) (map d2u_item [0..<64])"

definition swap_table :: "(pystr, transition) dict" where
  "swap_table = map (swap_transition default_state) swap_tokens"

definition translator_transitions :: "(pystr, transition) dict" where
  "translator_transitions =
     fold (\<lambda>transition_map t. dict_update t transition_map)
       [lower_table, upper_table, number_table, misc_table, uni_table, swap_table] []"

definition translator_fsm :: "(pystr \<Rightarrow> pystr) \<Rightarrow> fsm" where
  "translator_fsm lower =
     \<lparr>states = [(default_state, translator_transitions)],
      start_state = Some default_state,
      transform =
        BrailleTranslator_transform lower (braille_cell 32) (braille_cell 60)
          [str ''ed'', str ''ing''],
      postprocess = FSM_postprocess\<rparr>"

text \<open>
  The two indicator codes as \<open>setup\<close> computes them for \<open>self.upper_code\<close> and
  \<open>self.number_code\<close>.
\<close>

definition upper_code :: "py_error + pystr" where
  "upper_code = bindE get_conversion_maps (\<lambda>maps. dict_get (fst maps) (str ''000 001''))"

definition number_code :: "py_error + pystr" where
  "number_code = bindE get_conversion_maps (\<lambda>maps. dict_get (fst maps) (str ''001 111''))"

section \<open>The engine, step by step\<close>

lemma process_loop_Nil:
  "process_loop self [] out_txt out_seq state printed =
     Some (printed, Some (case out_txt of None \<Rightarrow> out_seq | Some t \<Rightarrow> out_seq @ [(t, state)]))"
  by (subst process_loop.simps) simp

lemma process_loop_undefined:
  "transitions_of self state = None \<Longrightarrow>
   process_loop self (in_tok # rest) out_txt out_seq state printed =
     Some (printed @ [Undefined_state state], None)"
  by (subst process_loop.simps) simp

lemma process_loop_miss:
  "transitions_of self state = Some tr \<Longrightarrow> lookup_transition self tr in_tok state = None \<Longrightarrow>
   process_loop self (in_tok # rest) out_txt out_seq state printed =
     process_loop self rest out_txt out_seq state (printed @ [Not_recognised (fst in_tok) state])"
  by (subst process_loop.simps) simp

lemma process_loop_apply:
  "transitions_of self state = Some tr \<Longrightarrow>
   lookup_transition self tr in_tok state = Some (ins, outs, state') \<Longrightarrow>
   process_loop self (in_tok # rest) out_txt out_seq state printed =
     process_loop self (ins @ rest)
       (fst (emit self (snd in_tok) state outs (out_txt, out_seq)))
       (snd (emit self (snd in_tok) state outs (out_txt, out_seq)))
       state' printed"
  by (subst process_loop.simps) simp

lemma is_end_marker: "is_end end_marker"
  by (simp add: is_end_def)

lemma is_end_char: "is_end [c] = (c = 124)"
  by (simp add: is_end_def end_marker_def str_def)

lemma is_end_cell: "\<not> is_end (braille_cell n)"
  by (simp add: is_end_def end_marker_def str_def braille_cell_def)


lemma emit_text: "\<not> is_end entry \<Longrightarrow>
   emit self tag state (entry # outs) acc =
     emit self tag state outs
       (Some (case fst acc of None \<Rightarrow> entry | Some out_txt \<Rightarrow> out_txt @ entry), snd acc)"
  by simp

lemma emit_flush: "is_end entry \<Longrightarrow>
   emit self tag state (entry # outs) acc =
     emit self tag state outs (None, snd acc @ postprocess self (fst acc) tag state)"
  by simp

declare emit.simps(2) [simp del]

declare emit_text [simp] emit_flush [simp] is_end_marker [simp] is_end_char [simp]
  is_end_cell [simp]

lemma dangling_s:
  "transitions_of dangling_fsm (Some (str ''s'')) =
     Some [(str ''a'', ([], [str ''x''], Some (str ''t'')))]"
  by (simp add: dangling_fsm_def add_state_def FSM_init_def transitions_of_def
      dict_update_def dict_of_def)

lemma dangling_t: "transitions_of dangling_fsm (Some (str ''t'')) = None"
  by (simp add: dangling_fsm_def add_state_def FSM_init_def transitions_of_def
      dict_update_def dict_of_def str_def)

lemma dangling_a:
  "lookup_transition dangling_fsm [(str ''a'', ([], [str ''x''], Some (str ''t'')))]
     (str ''a'', tag) (Some (str ''s'')) = Some ([], [str ''x''], Some (str ''t''))"
  by (simp add: lookup_transition_def)

lemma dangling_transform: "transform dangling_fsm txt tag state = None"
  by (simp add: dangling_fsm_def add_state_def FSM_init_def FSM_transform_def)

section \<open>Evaluating \<open>get_conversion_maps\<close>\<close>

lemma update_fresh: "k \<notin> fst ` set al \<Longrightarrow> AList.update k v al = al @ [(k, v)]"
  by (induction al) auto

lemma dict_update_fresh: "distinct (map fst (d @ kvs)) \<Longrightarrow> dict_update d kvs = d @ kvs"
proof (induction kvs arbitrary: d)
  case Nil
  then show ?case by (simp add: dict_update_def)
next
  case (Cons kv kvs)
  have fresh: "fst kv \<notin> fst ` set d" using Cons.prems by auto
  have "dict_update d (kv # kvs) = dict_update (d @ [kv]) kvs"
    using update_fresh [OF fresh, of "snd kv"] by (simp add: dict_update_def)
  also have "\<dots> = (d @ [kv]) @ kvs"
    using Cons.prems by (intro Cons.IH) simp
  finally show ?case by simp
qed

lemma map_of_inj_map:
  "inj_on f (set xs) \<Longrightarrow>
   (map_of (map (\<lambda>x. (f x, g x)) xs) k = Some v) = (\<exists>x\<in>set xs. k = f x \<and> v = g x)"
  by (induction xs) (auto simp: inj_on_def)

lemma bits6:
  fixes n :: nat
  assumes "n < 64"
  shows "n = n mod 2 + 2 * (n div 2 mod 2) + 4 * (n div 4 mod 2) + 8 * (n div 8 mod 2)
           + 16 * (n div 16 mod 2) + 32 * (n div 32 mod 2)"
proof -
  have s: "\<And>x::nat. x = 2 * (x div 2) + x mod 2" by simp
  have d4: "n div 4 = n div 2 div 2" and d8: "n div 8 = n div 4 div 2"
    and d16: "n div 16 = n div 8 div 2" and d32: "n div 32 = n div 16 div 2"
    by (simp_all add: div_mult2_eq [symmetric])
  have top: "n div 32 mod 2 = n div 32" using assms by simp
  show ?thesis
    using s [of n] s [of "n div 2"] s [of "n div 4"] s [of "n div 8"] s [of "n div 16"]
    unfolding top d4 [symmetric] d8 [symmetric] d16 [symmetric] d32 [symmetric]
    by linarith
qed

lemma dot_pattern_inj:
  assumes "n < 64" and "m < 64" and "dot_pattern n = dot_pattern m"
  shows "n = m"
proof -
  from assms(3) have bits: "n mod 2 = m mod 2" "n div 2 mod 2 = m div 2 mod 2"
    "n div 4 mod 2 = m div 4 mod 2" "n div 8 mod 2 = m div 8 mod 2"
    "n div 16 mod 2 = m div 16 mod 2" "n div 32 mod 2 = m div 32 mod 2"
    by (simp_all add: dot_pattern_def)
  have "n = n mod 2 + 2 * (n div 2 mod 2) + 4 * (n div 4 mod 2) + 8 * (n div 8 mod 2)
           + 16 * (n div 16 mod 2) + 32 * (n div 32 mod 2)"
    by (rule bits6 [OF assms(1)])
  also have "\<dots> = m mod 2 + 2 * (m div 2 mod 2) + 4 * (m div 4 mod 2) + 8 * (m div 8 mod 2)
           + 16 * (m div 16 mod 2) + 32 * (m div 32 mod 2)"
    by (simp only: bits)
  also have "\<dots> = m"
    by (rule bits6 [OF assms(2), symmetric])
  finally show ?thesis .
qed

lemma dot_pattern_inj_on: "inj_on dot_pattern (set [0..<64])"
  by (auto simp: inj_on_def dest: dot_pattern_inj)

lemma braille_cell_inj_on: "inj_on braille_cell A"
  by (simp add: inj_on_def braille_cell_def)

lemma bit_char: "48 + k mod 2 \<in> bit_chars"
  by (cases "k mod 2 = 0") (auto simp: bit_chars_def)

lemma dot_pattern_in: "dot_pattern n \<in> six_dot_patterns"
  unfolding six_dot_patterns_def dot_pattern_def using bit_char by blast

lemma six_dot_patterns_eq: "six_dot_patterns = dot_pattern ` {..<64}"
proof (intro equalityI subsetI)
  fix p assume "p \<in> six_dot_patterns"
  then obtain a b c d e f where p: "p = [a, b, c, 32, d, e, f]"
    and bits: "a \<in> bit_chars" "b \<in> bit_chars" "c \<in> bit_chars"
      "d \<in> bit_chars" "e \<in> bit_chars" "f \<in> bit_chars"
    unfolding six_dot_patterns_def by blast
  define n where "n = (a - 48) + 2 * (b - 48) + 4 * (c - 48) + 8 * (d - 48) + 16 * (e - 48) + 32 * (f - 48)"
  have "n < 64 \<and> dot_pattern n = p"
    using bits unfolding p n_def bit_chars_def dot_pattern_def by auto
  then show "p \<in> dot_pattern ` {..<64}" by blast
next
  fix p assume "p \<in> dot_pattern ` {..<64}"
  then show "p \<in> six_dot_patterns" using dot_pattern_in by blast
qed

lemma braille_block_eq: "braille_block = braille_cell ` {..<64}"
proof (intro equalityI subsetI)
  fix p assume "p \<in> braille_block"
  then obtain c where "p = [c]" "10240 \<le> c" "c \<le> 10303"
    unfolding braille_block_def by blast
  then have "p = braille_cell (c - 10240)" "c - 10240 < 64"
    by (auto simp: braille_cell_def)
  then show "p \<in> braille_cell ` {..<64}" by blast
next
  fix p assume "p \<in> braille_cell ` {..<64}"
  then show "p \<in> braille_block" by (auto simp: braille_block_def braille_cell_def)
qed

lemma digits_base_small: "n < b \<Longrightarrow> digits_base b n = [n]"
  by (simp add: digits_base.simps)

lemma digits_base_step:
  "2 \<le> b \<Longrightarrow> b \<le> n \<Longrightarrow> digits_base b n = digits_base b (n div b) @ [n mod b]"
  by (subst digits_base.simps) simp

lemma replicate_numeral: "replicate (numeral k) x = x # replicate (pred_numeral k) x"
  by (simp add: numeral_eq_Suc)

lemmas conversion_eval = replicate_numeral conversion_step_def format_int_def digits_base_small
  digits_base_step digit_char_def str_def int16_def hex_step_def hex_value_def bindE_def chr_def
  Let_def

lemma range_4: "[0..<4] = [0, 1, 2, 3]"
  by (simp add: upt_rec)

lemma range_16: "[0..<16] = [0, 1, 2, 3, 4, 5, 6, 7, 8, 9, 10, 11, 12, 13, 14, 15]"
  by (simp add: upt_rec)

lemma range_64:
  "[0..<64] = [0, 1, 2, 3, 4, 5, 6, 7, 8, 9, 10, 11, 12, 13, 14, 15] @
     [16, 17, 18, 19, 20, 21, 22, 23, 24, 25, 26, 27, 28, 29, 30, 31] @
     [32, 33, 34, 35, 36, 37, 38, 39, 40, 41, 42, 43, 44, 45, 46, 47] @
     [48, 49, 50, 51, 52, 53, 54, 55, 56, 57, 58, 59, 60, 61, 62, 63]"
  by (simp add: upt_rec)

lemma conversion_page_0:
  "conversion_page 0 maps =
     Inr (dict_update (fst maps) (map d2u_item [0, 1, 2, 3, 4, 5, 6, 7, 8, 9, 10, 11, 12, 13, 14, 15]),
          dict_update (snd maps) (map u2d_item [0, 1, 2, 3, 4, 5, 6, 7, 8, 9, 10, 11, 12, 13, 14, 15]))"
  by (simp add: conversion_page_def range_16 conversion_eval dict_update_def d2u_item_def
      u2d_item_def dot_pattern_def braille_cell_def)

lemma conversion_page_1:
  "conversion_page 1 maps =
     Inr (dict_update (fst maps) (map d2u_item [16, 17, 18, 19, 20, 21, 22, 23, 24, 25, 26, 27, 28, 29, 30, 31]),
          dict_update (snd maps) (map u2d_item [16, 17, 18, 19, 20, 21, 22, 23, 24, 25, 26, 27, 28, 29, 30, 31]))"
  by (simp add: conversion_page_def range_16 conversion_eval dict_update_def d2u_item_def
      u2d_item_def dot_pattern_def braille_cell_def)

lemma conversion_page_2:
  "conversion_page 2 maps =
     Inr (dict_update (fst maps) (map d2u_item [32, 33, 34, 35, 36, 37, 38, 39, 40, 41, 42, 43, 44, 45, 46, 47]),
          dict_update (snd maps) (map u2d_item [32, 33, 34, 35, 36, 37, 38, 39, 40, 41, 42, 43, 44, 45, 46, 47]))"
  by (simp add: conversion_page_def range_16 conversion_eval dict_update_def d2u_item_def
      u2d_item_def dot_pattern_def braille_cell_def)

lemma conversion_page_3:
  "conversion_page 3 maps =
     Inr (dict_update (fst maps) (map d2u_item [48, 49, 50, 51, 52, 53, 54, 55, 56, 57, 58, 59, 60, 61, 62, 63]),
          dict_update (snd maps) (map u2d_item [48, 49, 50, 51, 52, 53, 54, 55, 56, 57, 58, 59, 60, 61, 62, 63]))"
  by (simp add: conversion_page_def range_16 conversion_eval dict_update_def d2u_item_def
      u2d_item_def dot_pattern_def braille_cell_def)


lemma dict_update_append: "dict_update (dict_update d xs) ys = dict_update d (xs @ ys)"
  by (simp add: dict_update_def)

lemma get_conversion_maps_eq:
  "get_conversion_maps = Inr (map d2u_item [0..<64], map u2d_item [0..<64])"
proof -
  have d: "distinct (map fst ([] @ map d2u_item [0..<64]))"
    using dot_pattern_inj_on by (simp add: distinct_map d2u_item_def comp_def)
  have u: "distinct (map fst ([] @ map u2d_item [0..<64]))"
    using braille_cell_inj_on by (simp add: distinct_map u2d_item_def comp_def)
  have "get_conversion_maps =
          Inr (dict_update [] (map d2u_item [0..<64]), dict_update [] (map u2d_item [0..<64]))"
    unfolding range_64 map_append dict_update_append [symmetric]
    by (simp only: get_conversion_maps_def range_4 foldE.simps bindE_def conversion_page_0
        conversion_page_1 conversion_page_2 conversion_page_3 sum.case fst_conv snd_conv)
  then show ?thesis
    by (simp only: dict_update_fresh [OF d] dict_update_fresh [OF u] append_Nil)
qed

lemma d2u_lookup:
  "(map_of (map d2u_item [0..<64]) k = Some v) = (\<exists>n\<in>set [0..<64]. k = dot_pattern n \<and> v = braille_cell n)"
  using map_of_inj_map [where f = dot_pattern and g = braille_cell and xs = "[0..<64]",
      OF dot_pattern_inj_on]
  by (simp add: d2u_item_def [abs_def])

lemma u2d_lookup:
  "(map_of (map u2d_item [0..<64]) k = Some v) = (\<exists>n\<in>set [0..<64]. k = braille_cell n \<and> v = dot_pattern n)"
  using map_of_inj_map [where f = braille_cell and g = dot_pattern and xs = "[0..<64]",
      OF braille_cell_inj_on]
  by (simp add: u2d_item_def [abs_def])

section \<open>Evaluating \<open>BrailleTranslator.setup\<close>\<close>

lemma d2u_get:
  assumes "a \<in> bit_chars" "b \<in> bit_chars" "c \<in> bit_chars"
    "d \<in> bit_chars" "e \<in> bit_chars" "f \<in> bit_chars"
  shows "dict_get (map d2u_item [0..<64]) [a, b, c, 32, d, e, f] =
           Inr (braille_cell (a - 48 + 2 * (b - 48) + 4 * (c - 48) + 8 * (d - 48)
                  + 16 * (e - 48) + 32 * (f - 48)))"
proof -
  define n where "n = a - 48 + 2 * (b - 48) + 4 * (c - 48) + 8 * (d - 48) + 16 * (e - 48) + 32 * (f - 48)"
  have "n < 64 \<and> [a, b, c, 32, d, e, f] = dot_pattern n"
    using assms unfolding n_def bit_chars_def dot_pattern_def by auto
  then have "map_of (map d2u_item [0..<64]) [a, b, c, 32, d, e, f] = Some (braille_cell n)"
    unfolding d2u_lookup by auto
  then show ?thesis by (simp add: dict_get_def n_def)
qed

lemma dict_of_distinct: "distinct (map fst kvs) \<Longrightarrow> dict_of kvs = kvs"
  using dict_update_fresh [of "[]" kvs] by (simp add: dict_of_def)

lemma lower_codes_distinct: "distinct (map fst lower_codes)"
  by (simp add: lower_codes_def str_def)

lemma lower_codes_dict: "dict_of lower_codes = lower_codes"
  by (rule dict_of_distinct [OF lower_codes_distinct])

lemma misc_codes_distinct: "distinct (map fst misc_codes)"
  by (simp add: misc_codes_def str_def)

lemma misc_codes_dict: "dict_of misc_codes = misc_codes"
  by (rule dict_of_distinct [OF misc_codes_distinct])

lemma swap_tokens_distinct: "distinct (map fst swap_tokens)"
  by (simp add: swap_tokens_def str_def)

lemma swap_tokens_dict: "dict_of swap_tokens = swap_tokens"
  by (rule dict_of_distinct [OF swap_tokens_distinct])

lemma lower_map_eval:
  "mapE (code_transition (map d2u_item [0..<64]) default_state) lower_codes = Inr lower_table"
  by (simp add: lower_codes_def lower_table_def letter_cells_def code_transition_def
      cell_transition_def d2u_get bindE_def str_def bit_chars_def braille_cell_def)

lemma misc_map_eval:
  "mapE (code_transition (map d2u_item [0..<64]) default_state) misc_codes = Inr misc_table"
  by (simp add: misc_codes_def misc_table_def misc_cells_def code_transition_def
      cell_transition_def d2u_get bindE_def str_def bit_chars_def braille_cell_def)

lemma lower_table_distinct: "distinct (map fst lower_table)"
  by (simp add: lower_table_def letter_cells_def cell_transition_def str_def)

lemma lower_table_dict: "dict_of lower_table = lower_table"
  by (rule dict_of_distinct [OF lower_table_distinct])

lemma misc_table_distinct: "distinct (map fst misc_table)"
  by (simp add: misc_table_def misc_cells_def cell_transition_def str_def)

lemma misc_table_dict: "dict_of misc_table = misc_table"
  by (rule dict_of_distinct [OF misc_table_distinct])

lemma number_table_distinct: "distinct (map fst number_table)"
  by (simp add: number_table_def digit_cells_def cell_transition_def str_def)

lemma number_table_dict: "dict_of number_table = number_table"
  by (rule dict_of_distinct [OF number_table_distinct])

lemma upper_table_distinct: "distinct (map fst upper_table)"
  by (simp add: upper_table_def upper_transition_def lower_table_def letter_cells_def
      cell_transition_def str_def upper_def upper_cp_def)

lemma upper_table_dict: "dict_of upper_table = upper_table"
  by (rule dict_of_distinct [OF upper_table_distinct])

lemma swap_table_distinct: "distinct (map fst swap_table)"
  by (simp add: swap_table_def swap_transition_def swap_tokens_def str_def)

lemma swap_table_dict: "dict_of swap_table = swap_table"
  by (rule dict_of_distinct [OF swap_table_distinct])

lemma uni_table_keys: "map fst uni_table = map braille_cell [0..<64]"
  by (simp add: uni_table_def uni_transition_def d2u_item_def comp_def)

lemma uni_table_distinct: "distinct (map fst uni_table)"
  using braille_cell_inj_on [of "set [0..<64]"] by (simp add: uni_table_keys distinct_map)

lemma uni_table_dict: "dict_of uni_table = uni_table"
  by (rule dict_of_distinct [OF uni_table_distinct])

lemma number_map_eval:
  "mapE (number_transition lower_table) (enumerate_str (str ''1234567890'')) = Inr number_table"
  by (simp add: enumerate_str_def number_transition_def str_def upt_rec dict_get_def
      lower_table_def letter_cells_def cell_transition_def number_table_def digit_cells_def
      bindE_def)

lemma translator_tables_eq:
  "translator_tables (map d2u_item [0..<64]) (braille_cell 32) =
     Inr [lower_table, upper_table, number_table, misc_table, uni_table, swap_table]"
  by (simp only: translator_tables_def dict_comprehension_def lower_codes_dict misc_codes_dict
      swap_tokens_dict lower_map_eval misc_map_eval number_map_eval bindE_def sum.case
      lower_table_dict misc_table_dict number_table_dict
      upper_table_def [symmetric] uni_table_def [symmetric] swap_table_def [symmetric]
      upper_table_dict uni_table_dict swap_table_dict)

lemma upper_code_eval: "dict_get (map d2u_item [0..<64]) (str ''000 001'') = Inr (braille_cell 32)"
  using d2u_get [of 48 48 48 48 48 49] by (simp add: str_def bit_chars_def)

lemma number_code_eval: "dict_get (map d2u_item [0..<64]) (str ''001 111'') = Inr (braille_cell 60)"
  using d2u_get [of 48 48 49 49 49 49] by (simp add: str_def bit_chars_def)

lemma BrailleTranslator_eq: "BrailleTranslator lower = Inr (translator_fsm lower)"
  by (simp only: BrailleTranslator_def get_conversion_maps_eq bindE_def sum.case fst_conv
      upper_code_eval number_code_eval translator_tables_eq)
    (simp add: translator_fsm_def add_state_def FSM_init_def translator_transitions_def)

section \<open>Looking up the translator's table\<close>

lemma map_of_dict_update: "map_of (dict_update d kvs) = map_of d ++ map_of (rev kvs)"
proof (induction kvs arbitrary: d)
  case Nil
  show ?case by (simp add: dict_update_def)
next
  case (Cons kv kvs)
  have "map_of (dict_update d (kv # kvs)) =
        map_of (dict_update (AList.update (fst kv) (snd kv) d) kvs)"
    by (simp add: dict_update_def)
  also have "\<dots> = map_of (AList.update (fst kv) (snd kv) d) ++ map_of (rev kvs)"
    by (rule Cons.IH)
  also have "\<dots> = map_of d ++ map_of (rev (kv # kvs))"
    by (cases kv) (auto simp: update_conv' map_add_def fun_eq_iff split: option.splits)
  finally show ?case .
qed

lemma map_of_rev_distinct: "distinct (map fst kvs) \<Longrightarrow> map_of (rev kvs) = map_of kvs"
proof (induction kvs)
  case Nil
  show ?case by simp
next
  case (Cons kv kvs)
  then have fresh: "map_of kvs (fst kv) = None" and IH: "map_of (rev kvs) = map_of kvs"
    by (auto simp: map_of_eq_None_iff)
  show ?case
    using fresh by (cases kv) (auto simp: IH map_add_def fun_eq_iff split: option.splits)
qed

lemma map_of_dict_update_distinct:
  "distinct (map fst kvs) \<Longrightarrow> map_of (dict_update d kvs) = map_of d ++ map_of kvs"
  by (simp add: map_of_dict_update map_of_rev_distinct)

lemma translator_lookup:
  "map_of translator_transitions k =
     (case map_of swap_table k of Some t \<Rightarrow> Some t | None \<Rightarrow>
      case map_of uni_table k of Some t \<Rightarrow> Some t | None \<Rightarrow>
      case map_of misc_table k of Some t \<Rightarrow> Some t | None \<Rightarrow>
      case map_of number_table k of Some t \<Rightarrow> Some t | None \<Rightarrow>
      case map_of upper_table k of Some t \<Rightarrow> Some t | None \<Rightarrow>
      map_of lower_table k)"
  by (simp add: translator_transitions_def map_of_dict_update_distinct lower_table_distinct
      upper_table_distinct number_table_distinct misc_table_distinct uni_table_distinct
      swap_table_distinct map_add_def split: option.splits)

lemma swap_lookup_char: "map_of swap_table [c] =
    (if c = 9 then Some (replicate 2 (str '' '', Some whitespace_tag), [], Some default_state) else None)"
  by (simp add: swap_table_def swap_tokens_def swap_transition_def str_def)

lemma misc_lookup_char: "map_of misc_table [c] =
    (if c = 32 then Some ([], [braille_cell 0], Some default_state)
     else if c = 44 then Some ([], [braille_cell 2], Some default_state)
     else if c = 46 then Some ([], [braille_cell 50], Some default_state)
     else None)"
  by (simp add: misc_table_def misc_cells_def cell_transition_def str_def)

lemma uni_table_eq:
  "uni_table = map (\<lambda>n. (braille_cell n, ([], [braille_cell n], Some default_state))) [0..<64]"
  by (simp add: uni_table_def uni_transition_def d2u_item_def)

lemma uni_lookup:
  "(map_of uni_table k = Some t) =
     (\<exists>n\<in>set [0..<64]. k = braille_cell n \<and> t = ([], [braille_cell n], Some default_state))"
  unfolding uni_table_eq
  by (rule map_of_inj_map [OF braille_cell_inj_on])

lemma uni_lookup_cell:
  "n < 64 \<Longrightarrow> map_of uni_table (braille_cell n) = Some ([], [braille_cell n], Some default_state)"
  unfolding uni_lookup by auto

lemma uni_lookup_ascii: "c < 10240 \<Longrightarrow> map_of uni_table [c] = None"
proof -
  assume "c < 10240"
  then have "\<not> (\<exists>t. map_of uni_table [c] = Some t)"
    unfolding uni_lookup by (auto simp: braille_cell_def)
  then show ?thesis by (cases "map_of uni_table [c]") auto
qed

lemma lower_keys: "map fst lower_table = map (\<lambda>c. [c]) [97..<123]"
  by (simp add: lower_table_def letter_cells_def cell_transition_def str_def upt_rec)

lemma upper_keys: "map fst upper_table = map (\<lambda>c. [c]) [65..<91]"
  by (simp add: upper_table_def upper_transition_def lower_table_def letter_cells_def
      cell_transition_def str_def upt_rec upper_def upper_cp_def)

lemma number_keys: "set (map fst number_table) = set (map (\<lambda>c. [c]) [48..<58])"
  by (simp add: number_table_def digit_cells_def cell_transition_def str_def upt_rec) blast

section \<open>Runs of the translator\<close>

lemma translator_default: "transitions_of (translator_fsm lower) (Some default_state) = Some translator_transitions"
  by (simp add: translator_fsm_def transitions_of_def)

lemma cell_lookup:
  assumes "n < 64"
  shows "map_of translator_transitions (braille_cell n) =
           Some ([], [braille_cell n], Some default_state)"
proof -
  have "map_of swap_table (braille_cell n) = None"
    by (simp add: braille_cell_def swap_lookup_char)
  then show ?thesis
    by (simp add: translator_lookup uni_lookup_cell [OF assms])
qed

lemma cell_transition_applied:
  assumes "10240 \<le> c" and "c \<le> 10303"
  shows "lookup_transition (translator_fsm lower) translator_transitions ([c], tag) (Some default_state) =
           Some ([], [[c]], Some default_state)"
proof -
  have "c - 10240 < 64" and "braille_cell (c - 10240) = [c]"
    using assms by (simp_all add: braille_cell_def)
  with cell_lookup [of "c - 10240"] show ?thesis
    by (simp add: lookup_transition_def)
qed

lemma translator_run_cells:
  assumes "\<forall>c\<in>set s. 10240 \<le> c \<and> c \<le> 10303"
  shows "process_loop (translator_fsm lower) (map untagged s) buf [] (Some default_state) printed =
           Some (printed,
             Some (case (if s = [] then buf
                         else Some ((case buf of None \<Rightarrow> [] | Some b \<Rightarrow> b) @ s)) of
                     None \<Rightarrow> [] | Some t \<Rightarrow> [(t, Some default_state)]))"
  using assms
proof (induction s arbitrary: buf)
  case Nil
  show ?case by (simp add: process_loop_Nil split: option.splits)
next
  case (Cons c s)
  then have c: "10240 \<le> c" "c \<le> 10303" and s: "\<forall>c\<in>set s. 10240 \<le> c \<and> c \<le> 10303"
    by simp_all
  let ?buf = "Some ((case buf of None \<Rightarrow> [] | Some b \<Rightarrow> b) @ [c])"
  have "process_loop (translator_fsm lower) (map untagged (c # s)) buf [] (Some default_state) printed =
        process_loop (translator_fsm lower) (map untagged s) ?buf [] (Some default_state) printed"
    using process_loop_apply [OF translator_default
        cell_transition_applied [OF c, where tag = None and lower = lower],
        of "map untagged s" buf "[]" printed] c
    by (simp add: untagged_def split: option.splits)
  then show ?case
    by (simp add: Cons.IH [OF s])
qed

section \<open>Runs of the tokeniser on one character\<close>

lemma dict_update_keeps_distinct:
  "distinct (map fst d) \<Longrightarrow> distinct (map fst (dict_update d kvs))"
  by (induction kvs arbitrary: d) (simp_all add: dict_update_def AList.distinct_update)

lemma map_of_dict_of: "map_of (dict_of kvs) = map_of (rev kvs)"
  by (simp add: dict_of_def map_of_dict_update)

lemma map_of_keyed: "map_of (map (\<lambda>k. ([k], g k)) cs) [c] = (if c \<in> set cs then Some (g c) else None)"
  by (induction cs) auto

lemma char_dict_lookup:
  "map_of (dict_update d (dict_of (map (\<lambda>k. ([k], g k)) cs))) [c] =
     (if c \<in> set cs then Some (g c) else map_of d [c])"
proof -
  have "distinct (map fst (dict_of (map (\<lambda>k. ([k], g k)) cs)))"
    unfolding dict_of_def by (rule dict_update_keeps_distinct) simp
  then have "map_of (dict_update d (dict_of (map (\<lambda>k. ([k], g k)) cs))) =
             map_of d ++ map_of (map (\<lambda>k. ([k], g k)) (rev cs))"
    by (simp add: map_of_dict_update_distinct map_of_dict_of rev_map)
  then show ?thesis
    using map_of_keyed [of g "rev cs" c] by (simp add: map_add_def)
qed

lemma whitespace_tag_neq:
  "whitespace_tag \<noteq> number_tag" "whitespace_tag \<noteq> alphanum_tag" "whitespace_tag \<noteq> mixed_tag"
  "whitespace_tag \<noteq> upper_tag" "whitespace_tag \<noteq> lower_tag"
  by (simp_all add: whitespace_tag_def number_tag_def alphanum_tag_def mixed_tag_def
      upper_tag_def lower_tag_def str_def)

lemma tokeniser_start:
  "\<exists>tr. transitions_of BrailleTokeniser (Some whitespace_tag) = Some tr \<and>
     (\<forall>c. map_of tr [c] =
        (if c \<in> set punct_chars then Some ([], [end_marker, [c]], Some punctuation_tag)
         else if c \<in> set white_chars then Some ([], [end_marker, [c]], Some whitespace_tag)
         else if c \<in> set digit_chars then Some ([], [end_marker, [c]], Some number_tag)
         else if c \<in> set upper_chars then Some ([], [end_marker, [c]], Some upper_tag)
         else if c \<in> set lower_chars then Some ([], [end_marker, [c]], Some lower_tag)
         else None))"
  by (simp add: BrailleTokeniser_def BrailleTokeniser_setup_def add_state_def FSM_init_def
      transitions_of_def update_conv' whitespace_tag_neq start_run_def [abs_def]
      char_dict_lookup)

lemma tokeniser_fields:
  "start_state BrailleTokeniser = Some whitespace_tag"
  "transform BrailleTokeniser = FSM_transform"
  "postprocess BrailleTokeniser = FSM_postprocess"
  by (simp_all add: BrailleTokeniser_def BrailleTokeniser_setup_def add_state_def FSM_init_def)

lemma tokenise_char:
  assumes "transitions_of BrailleTokeniser (Some whitespace_tag) = Some tr"
    and "map_of tr [c] = Some ([], [end_marker, [c]], Some tag)"
    and "c \<noteq> 124"
  shows "process BrailleTokeniser (Chars [c]) = Some ([], Some [([c], Some tag)])"
proof -
  have "lookup_transition BrailleTokeniser tr ([c], None) (Some whitespace_tag) =
          Some ([], [end_marker, [c]], Some tag)"
    using assms(2) by (simp add: lookup_transition_def)
  from process_loop_apply [OF assms(1) this, of "[]" None "[]" "[]"] assms(3)
  show ?thesis
    by (simp add: process_def tokeniser_fields untagged_def FSM_postprocess_def process_loop_Nil)
qed

lemma char_classes:
  "set lower_chars = {97..<123}" "set upper_chars = {65..<91}" "set digit_chars = {48..<58}"
  "set punct_chars = {44, 46, 59, 58}" "set white_chars = {9, 32}"
proof -
  have l: "lower_chars = [97..<123]" and u: "upper_chars = [65..<91]"
    and d: "digit_chars = [48..<58]"
    by (simp_all add: lower_chars_def upper_chars_def digit_chars_def str_def upt_rec upper_def
        upper_cp_def)
  show "set lower_chars = {97..<123}" unfolding l by (rule set_upt)
  show "set upper_chars = {65..<91}" unfolding u by (rule set_upt)
  show "set digit_chars = {48..<58}" unfolding d by (rule set_upt)
  show "set punct_chars = {44, 46, 59, 58}" "set white_chars = {9, 32}"
    by (simp_all add: punct_chars_def white_chars_def str_def)
qed

lemma tokenise_lower:
  assumes "97 \<le> c" and "c < 123"
  shows "process BrailleTokeniser (Chars [c]) = Some ([], Some [([c], Some lower_tag)])"
proof -
  from tokeniser_start obtain tr
    where tr: "transitions_of BrailleTokeniser (Some whitespace_tag) = Some tr"
      and "map_of tr [c] = Some ([], [end_marker, [c]], Some lower_tag)"
    using assms by (auto simp: char_classes)
  then show ?thesis using assms by (intro tokenise_char) simp_all
qed

lemma tokenise_upper:
  assumes "65 \<le> c" and "c < 91"
  shows "process BrailleTokeniser (Chars [c]) = Some ([], Some [([c], Some upper_tag)])"
proof -
  from tokeniser_start obtain tr
    where tr: "transitions_of BrailleTokeniser (Some whitespace_tag) = Some tr"
      and "map_of tr [c] = Some ([], [end_marker, [c]], Some upper_tag)"
    using assms by (auto simp: char_classes)
  then show ?thesis using assms by (intro tokenise_char) simp_all
qed

lemma tokenise_digit:
  assumes "48 \<le> c" and "c < 58"
  shows "process BrailleTokeniser (Chars [c]) = Some ([], Some [([c], Some number_tag)])"
proof -
  from tokeniser_start obtain tr
    where tr: "transitions_of BrailleTokeniser (Some whitespace_tag) = Some tr"
      and "map_of tr [c] = Some ([], [end_marker, [c]], Some number_tag)"
    using assms by (auto simp: char_classes)
  then show ?thesis using assms by (intro tokenise_char) simp_all
qed

lemma tokenise_punct:
  assumes "c \<in> {44, 46, 59, 58}"
  shows "process BrailleTokeniser (Chars [c]) = Some ([], Some [([c], Some punctuation_tag)])"
proof -
  from tokeniser_start obtain tr
    where tr: "transitions_of BrailleTokeniser (Some whitespace_tag) = Some tr"
      and "map_of tr [c] = Some ([], [end_marker, [c]], Some punctuation_tag)"
    using assms by (auto simp: char_classes)
  then show ?thesis using assms by (intro tokenise_char) auto
qed

section \<open>Letters and digits in the translator's table\<close>

lemma upper_code_eq: "upper_code = Inr (braille_cell 32)"
  by (simp add: upper_code_def get_conversion_maps_eq bindE_def upper_code_eval)

lemma number_code_eq: "number_code = Inr (braille_cell 60)"
  by (simp add: number_code_def get_conversion_maps_eq bindE_def number_code_eval)

lemma map_of_map_key:
  "inj_on f (fst ` set xs) \<Longrightarrow> map_of xs k = Some v \<Longrightarrow>
   map_of (map (\<lambda>kv. (f (fst kv), g (snd kv))) xs) (f k) = Some (g v)"
proof (induction xs)
  case Nil
  then show ?case by simp
next
  case (Cons x xs)
  show ?case
  proof (cases "fst x = k")
    case True
    with Cons.prems show ?thesis by simp
  next
    case False
    then have tail: "map_of xs k = Some v" using Cons.prems(2) by (cases x) auto
    then have "k \<in> fst ` set xs" by (metis map_of_eq_None_iff option.distinct(1))
    then have "f (fst x) \<noteq> f k" using Cons.prems(1) False by (auto simp: inj_on_def)
    moreover have "inj_on f (fst ` set xs)" using Cons.prems(1) by (auto simp: inj_on_def)
    ultimately show ?thesis using Cons.IH tail by simp
  qed
qed

lemma lower_key_set: "fst ` set lower_table = (\<lambda>c. [c]) ` {97..<123}"
proof -
  have "fst ` set lower_table = set (map fst lower_table)" by simp
  also have "\<dots> = (\<lambda>c. [c]) ` set [97..<123]" unfolding lower_keys by (rule set_map)
  finally show ?thesis by (simp only: set_upt)
qed

lemma upper_key_set: "fst ` set upper_table = (\<lambda>c. [c]) ` {65..<91}"
proof -
  have "fst ` set upper_table = set (map fst upper_table)" by simp
  also have "\<dots> = (\<lambda>c. [c]) ` set [65..<91]" unfolding upper_keys by (rule set_map)
  finally show ?thesis by (simp only: set_upt)
qed

lemma number_key_set: "fst ` set number_table = (\<lambda>c. [c]) ` {48..<58}"
proof -
  have "fst ` set number_table = set (map fst number_table)" by simp
  also have "\<dots> = (\<lambda>c. [c]) ` set [48..<58]" unfolding number_keys by simp
  finally show ?thesis by (simp only: set_upt)
qed

lemma lower_lookup:
  assumes "97 \<le> c" and "c < 123"
  shows "\<exists>n. map_of lower_table [c] = Some ([], [braille_cell n], Some default_state)"
proof -
  have "[c] \<in> fst ` set lower_table" using assms by (simp add: lower_key_set)
  then obtain t where t: "map_of lower_table [c] = Some t"
    by (metis map_of_eq_None_iff not_Some_eq)
  then have "([c], t) \<in> set lower_table" by (rule map_of_SomeD)
  then obtain kn where "([c], t) = cell_transition kn"
    unfolding lower_table_def by auto
  then have "t = ([], [braille_cell (snd kn)], Some default_state)"
    by (simp add: cell_transition_def)
  then show ?thesis using t by blast
qed

lemma upper_lookup:
  assumes "map_of lower_table [c] = Some (ins, outs, st)"
  shows "map_of upper_table (upper [c]) = Some (ins, braille_cell 32 # outs, st)"
proof -
  have inj: "inj_on upper (fst ` set lower_table)"
    unfolding lower_key_set by (auto simp: inj_on_def upper_def upper_cp_def)
  have shape: "upper_transition (braille_cell 32) =
      (\<lambda>kv. (upper (fst kv),
         (\<lambda>t. (fst t, braille_cell 32 # fst (snd t), snd (snd t))) (snd kv)))"
    by (rule ext) (simp add: upper_transition_def)
  from map_of_map_key [OF inj assms,
      of "\<lambda>t. (fst t, braille_cell 32 # fst (snd t), snd (snd t))"]
  show ?thesis unfolding upper_table_def shape by simp
qed

lemma lower_letter_transition:
  assumes "97 \<le> c" and "c < 123"
  shows "map_of translator_transitions [c] = map_of lower_table [c]"
proof -
  have "[c] \<notin> fst ` set number_table" "[c] \<notin> fst ` set upper_table"
    using assms by (auto simp: number_key_set upper_key_set)
  then have "map_of number_table [c] = None" "map_of upper_table [c] = None"
    by (simp_all add: map_of_eq_None_iff)
  then show ?thesis
    using assms by (simp add: translator_lookup swap_lookup_char uni_lookup_ascii misc_lookup_char)
qed

lemma upper_letter_transition:
  assumes "65 \<le> c" and "c < 91"
  shows "map_of translator_transitions [c] = map_of upper_table [c]"
proof -
  have "[c] \<notin> fst ` set number_table"
    using assms by (auto simp: number_key_set)
  then have "map_of number_table [c] = None"
    by (simp add: map_of_eq_None_iff)
  moreover have "\<exists>t. map_of upper_table [c] = Some t"
    using assms by (metis (no_types, lifting) upper_key_set map_of_eq_None_iff not_Some_eq
        atLeastLessThan_iff imageI)
  ultimately show ?thesis
    using assms
    by (auto simp: translator_lookup swap_lookup_char uni_lookup_ascii misc_lookup_char)
qed

lemma translator_one_token:
  assumes "map_of translator_transitions k = Some ([], outs, Some default_state)"
  shows "process (translator_fsm lower) (Tokens [(k, tag)]) =
           process_loop (translator_fsm lower) []
             (fst (emit (translator_fsm lower) tag (Some default_state) outs (None, [])))
             (snd (emit (translator_fsm lower) tag (Some default_state) outs (None, [])))
             (Some default_state) []"
proof -
  have "lookup_transition (translator_fsm lower) translator_transitions (k, tag) (Some default_state) =
          Some ([], outs, Some default_state)"
    using assms by (simp add: lookup_transition_def)
  from process_loop_apply [OF translator_default this, of "[]" None "[]" "[]"]
  show ?thesis by (simp add: process_def translator_fsm_def)
qed

section \<open>Translating one character\<close>

lemma translate_one:
  assumes "process BrailleTokeniser (Chars txt) = Some (p, Some [(k, tag)])"
    and "process (translator_fsm lower) (Tokens [(k, tag)]) = Some (q, Some [(x, st)])"
  shows "translate lower txt = Some (Inr x)"
  using assms by (simp add: translate_def BrailleTranslator_eq translate_tokens_def first_text_def)

lemma translator_one_code:
  assumes "map_of translator_transitions k = Some ([], [braille_cell n], Some default_state)"
  shows "process (translator_fsm lower) (Tokens [(k, tag)]) =
           Some ([], Some [(braille_cell n, Some default_state)])"
  unfolding translator_one_token [OF assms] by (simp add: process_loop_Nil)

lemma translator_two_codes:
  assumes "map_of translator_transitions k =
             Some ([], [braille_cell m, braille_cell n], Some default_state)"
  shows "process (translator_fsm lower) (Tokens [(k, tag)]) =
           Some ([], Some [(braille_cell m @ braille_cell n, Some default_state)])"
  unfolding translator_one_token [OF assms] by (simp add: process_loop_Nil)

lemma process_one_char: "process self (Chars [c]) = process self (Tokens [([c], None)])"
  by (simp add: process_def untagged_def)

lemma letter_a: "map_of lower_table (str ''a'') = Some ([], [braille_cell 1], Some default_state)"
  by (simp add: lower_table_def letter_cells_def cell_transition_def str_def)

lemma digit_1_transition:
  "map_of translator_transitions (str ''1'') = Some ([], [braille_cell 1], Some default_state)"
proof -
  have "map_of number_table [49] = Some ([], [braille_cell 1], Some default_state)"
    by (simp add: number_table_def digit_cells_def cell_transition_def str_def)
  then show ?thesis
    by (simp add: str_def translator_lookup swap_lookup_char uni_lookup_ascii misc_lookup_char)
qed

section \<open>An invariant rule for the loop, and the shape of the translator's transitions\<close>






lemma translator_fields:
  "states (translator_fsm lower) = [(default_state, translator_transitions)]"
  "start_state (translator_fsm lower) = Some default_state"
  by (simp_all add: translator_fsm_def)

lemma process_loop_invariant:
  assumes run: "process_loop self in_seq out_txt out_seq state printed = Some y"
    and start: "I in_seq out_txt out_seq state printed"
    and miss: "\<And>tok rest out_txt out_seq state printed tr.
       I (tok # rest) out_txt out_seq state printed \<Longrightarrow>
       transitions_of self state = Some tr \<Longrightarrow>
       lookup_transition self tr tok state = None \<Longrightarrow>
       I rest out_txt out_seq state (printed @ [Not_recognised (fst tok) state])"
    and hit: "\<And>tok rest out_txt out_seq state printed tr r.
       I (tok # rest) out_txt out_seq state printed \<Longrightarrow>
       transitions_of self state = Some tr \<Longrightarrow>
       lookup_transition self tr tok state = Some r \<Longrightarrow>
       I (fst r @ rest)
         (fst (emit self (snd tok) state (fst (snd r)) (out_txt, out_seq)))
         (snd (emit self (snd tok) state (fst (snd r)) (out_txt, out_seq)))
         (snd (snd r)) printed"
    and abort: "\<And>tok rest out_txt out_seq state printed.
       I (tok # rest) out_txt out_seq state printed \<Longrightarrow>
       transitions_of self state = None \<Longrightarrow>
       Q (printed @ [Undefined_state state], None)"
    and final: "\<And>out_txt out_seq state printed.
       I [] out_txt out_seq state printed \<Longrightarrow>
       Q (printed,
          Some (case out_txt of None \<Rightarrow> out_seq | Some t \<Rightarrow> out_seq @ [(t, state)]))"
  shows "Q y"
proof -
  have "self = self \<and> I in_seq out_txt out_seq state printed \<longrightarrow> Q y"
  proof (rule process_loop.raw_induct
      [where P = "\<lambda>s i t q st p y. s = self \<and> I i t q st p \<longrightarrow> Q y", OF _ run], goal_cases)
    case (1 loop s i t q st p y)
    show ?case
    proof (intro impI)
      assume "s = self \<and> I i t q st p"
      then have s: "s = self" and inv: "I i t q st p" by simp_all
      show "Q y"
      proof (cases i)
        case Nil
        with 1(2) final [of t q st p] inv show ?thesis by auto
      next
        case (Cons tok rest)
        note inv' = inv [unfolded Cons]
        show ?thesis
        proof (cases "transitions_of self st")
          case None
          with 1(2) abort [OF inv' None] s Cons show ?thesis by auto
        next
          case (Some tr)
          show ?thesis
          proof (cases "lookup_transition self tr tok st")
            case None
            with 1(2) Some s Cons
            have "loop self rest t q st (p @ [Not_recognised (fst tok) st]) = Some y" by simp
            from 1(1) [OF this] miss [OF inv' Some None] show ?thesis by simp
          next
            case r: (Some r)
            with 1(2) Some s Cons
            have "loop self (fst r @ rest)
                    (fst (emit self (snd tok) st (fst (snd r)) (t, q)))
                    (snd (emit self (snd tok) st (fst (snd r)) (t, q)))
                    (snd (snd r)) p = Some y" by simp
            from 1(1) [OF this] hit [OF inv' Some r] show ?thesis by simp
          qed
        qed
      qed
    qed
  qed
  with start show ?thesis by simp
qed


section \<open>A token that \<open>transform\<close> hands back unchanged\<close>

lemma semicolon_not_in_table: "map_of translator_transitions [59] = None"
proof -
  have "[59] \<notin> fst ` set number_table" "[59] \<notin> fst ` set upper_table"
    "[59] \<notin> fst ` set lower_table"
    by (auto simp: number_key_set upper_key_set lower_key_set)
  then have "map_of number_table [59] = None" "map_of upper_table [59] = None"
    "map_of lower_table [59] = None"
    by (simp_all add: map_of_eq_None_iff)
  then show ?thesis
    by (simp add: translator_lookup swap_lookup_char uni_lookup_ascii misc_lookup_char)
qed

lemma semicolon_requeued:
  assumes "tag \<noteq> Some number_tag" and "tag \<noteq> Some upper_tag"
  shows "lookup_transition (translator_fsm lower) translator_transitions ([59], tag) (Some default_state) =
           Some ([([59], tag)], [], Some default_state)"
  using assms
  by (simp add: lookup_transition_def semicolon_not_in_table translator_fsm_def
      BrailleTranslator_transform_def str_def single_char_def)

lemma semicolon_loops:
  assumes "tag \<noteq> Some number_tag" and "tag \<noteq> Some upper_tag"
  shows "process_loop (translator_fsm lower) (([59], tag) # rest) out_txt out_seq (Some default_state)
           printed = None"
proof (rule ccontr)
  assume "process_loop (translator_fsm lower) (([59], tag) # rest) out_txt out_seq (Some default_state)
            printed \<noteq> None"
  then obtain y where run: "process_loop (translator_fsm lower) (([59], tag) # rest) out_txt out_seq
      (Some default_state) printed = Some y"
    by blast
  show False
  proof (rule process_loop_invariant
      [where I = "\<lambda>i t q st p. st = Some default_state \<and> (\<exists>rest. i = ([59], tag) # rest)"
        and Q = "\<lambda>y. False", OF run], goal_cases)
    case 1
    show ?case by simp
  next
    case (2 tok rest out_txt out_seq state printed tr)
    then show ?case using semicolon_requeued [OF assms] by (simp add: translator_default)
  next
    case (3 tok rest out_txt out_seq state printed tr r)
    then show ?case using semicolon_requeued [OF assms] by (auto simp: translator_default)
  next
    case (4 tok rest out_txt out_seq state printed)
    then show ?case by (simp add: translator_default)
  next
    case (5 out_txt out_seq state printed)
    then show ?case by simp
  qed
qed

lemma punctuation_tag_neq: "punctuation_tag \<noteq> number_tag" "punctuation_tag \<noteq> upper_tag"
  by (simp_all add: punctuation_tag_def number_tag_def upper_tag_def str_def)

section \<open>Undefined states, and what a run has printed\<close>

text \<open>
  A transition into a state without a table, followed by a token: the test at the top
  of the loop sees the state and the run returns \<open>None\<close>.
\<close>

lemma undefined_state_aborts_when_input_remains:
  assumes "transitions_of self state = Some tr"
    and "lookup_transition self tr in_tok state = Some (ins, outs, state')"
    and "transitions_of self state' = None"
    and "ins @ rest \<noteq> []"
  shows "process_loop self (in_tok # rest) out_txt out_seq state printed =
           Some (printed @ [Undefined_state state'], None)"
proof -
  from assms(4) obtain t ts where queue: "ins @ rest = t # ts"
    by (cases "ins @ rest") auto
  show ?thesis
    unfolding process_loop_apply [OF assms(1) assms(2)] queue
    by (rule process_loop_undefined [OF assms(3)])
qed

text \<open>
  The same transition on the last token, pushing nothing: the loop ends before the test
  is reached again, and the run returns the output list, whatever the new state is.
\<close>

lemma last_token_returns_normally:
  assumes "transitions_of self state = Some tr"
    and "lookup_transition self tr in_tok state = Some ([], outs, state')"
  shows "process_loop self [in_tok] out_txt out_seq state printed =
           Some (printed,
             Some (case fst (emit self (snd in_tok) state outs (out_txt, out_seq)) of
                     None \<Rightarrow> snd (emit self (snd in_tok) state outs (out_txt, out_seq))
                   | Some t \<Rightarrow>
                       snd (emit self (snd in_tok) state outs (out_txt, out_seq)) @ [(t, state')]))"
  unfolding process_loop_apply [OF assms] by (simp add: process_loop_Nil)

text \<open>A run that returns has printed what was printed before it, and then more.\<close>

lemma printed_is_kept:
  assumes "process_loop self in_seq out_txt out_seq state printed = Some y"
  shows "\<exists>more. fst y = printed @ more"
proof (rule process_loop_invariant
    [where I = "\<lambda>i t q st p. \<exists>m. p = printed @ m"
      and Q = "\<lambda>y. \<exists>more. fst y = printed @ more", OF assms], goal_cases)
  case 1
  show ?case by simp
next
  case (2 tok rest out_txt out_seq state printed' tr)
  then show ?case by auto
next
  case (3 tok rest out_txt out_seq state printed' tr r)
  then show ?case by simp
next
  case (4 tok rest out_txt out_seq state printed')
  then show ?case by auto
next
  case (5 out_txt out_seq state printed')
  then show ?case by simp
qed

lemma bar_s:
  "transitions_of bar_fsm (Some (str ''s'')) =
     Some [(str ''a'', ([], [str ''x'', str ''|'', str ''y''], Some (str ''s'')))]"
  by (simp add: bar_fsm_def add_state_def FSM_init_def transitions_of_def
      dict_update_def dict_of_def)

lemma bar_fields:
  "start_state bar_fsm = Some (str ''s'')" "postprocess bar_fsm = FSM_postprocess"
  by (simp_all add: bar_fsm_def add_state_def FSM_init_def)

lemma dangling_fields:
  "start_state dangling_fsm = Some (str ''s'')" "postprocess dangling_fsm = FSM_postprocess"
  by (simp_all add: dangling_fsm_def add_state_def FSM_init_def)

lemma example_texts:
  "\<not> is_end (str ''x'')" "\<not> is_end (str ''y'')" "is_end (str ''|'')"
  by (simp_all add: is_end_def end_marker_def str_def)

section \<open>Claims about the engine\<close>

text \<open>
  C3 fails on the code. \<open>process\<close> does abort on an undefined state (it prints
  \<open>Reached undefined state\<close> and returns \<open>None\<close>), but it looks at the state only at
  the top of the loop, before the next token is read. On the machine \<open>dangling_fsm\<close>,
  whose transition on \<open>a\<close> leads to the state \<open>t\<close> that has no table, the input
  \<open>ab\<close> is aborted, while on the input \<open>a\<close>, where the transition is applied to the
  last token, \<open>process\<close> returns the output list with the record \<open>(x, t)\<close>.
\<close>

theorem undefined_state_on_last_token_returns_output:
  "transitions_of dangling_fsm (Some (str ''t'')) = None \<and>
   process dangling_fsm (Chars (str ''a'')) = Some ([], Some [(str ''x'', Some (str ''t''))]) \<and>
   process dangling_fsm (Chars (str ''ab'')) = Some ([Undefined_state (Some (str ''t''))], None)"
proof -
  have a: "process dangling_fsm (Chars (str ''a'')) =
             Some ([], Some [(str ''x'', Some (str ''t''))])"
    using last_token_returns_normally [OF dangling_s dangling_a, of None None "[]" "[]"]
    by (simp add: process_def untagged_def str_def dangling_fields example_texts [unfolded str_def])
  have ab: "process dangling_fsm (Chars (str ''ab'')) =
              Some ([Undefined_state (Some (str ''t''))], None)"
    using undefined_state_aborts_when_input_remains
      [OF dangling_s dangling_a dangling_t, of "[(str ''b'', None)]" None None "[]" "[]"]
    by (simp add: process_def untagged_def str_def dangling_fields)
  from dangling_t a ab show ?thesis by simp
qed

text \<open>
  C4 fails on the code. The end marker is the string \<open>self.end = '|'\<close>, and in CPython
  every string with the value \<open>|\<close> is that very object, so that the test
  \<open>txt is self.end\<close> cannot tell a literal \<open>|\<close> in an output list from the marker. On
  the machine \<open>bar_fsm\<close>, whose transition on \<open>a\<close> has the three literal texts
  \<open>x\<close>, \<open>|\<close>, \<open>y\<close> as its output list, the input \<open>a\<close> gives the two records
  \<open>(x, s)\<close> and \<open>(y, s)\<close>: the literal \<open>|\<close> has flushed the buffer, where the claim
  has it appended as text, for the single record \<open>(x|y, s)\<close>.
\<close>

theorem literal_bar_flushes_the_buffer:
  "process bar_fsm (Chars (str ''a'')) =
     Some ([], Some [(str ''x'', Some (str ''s'')), (str ''y'', Some (str ''s''))]) \<and>
   process bar_fsm (Chars (str ''a'')) \<noteq> Some ([], Some [(str ''x|y'', Some (str ''s''))])"
proof -
  have look: "lookup_transition bar_fsm
      [(str ''a'', ([], [str ''x'', str ''|'', str ''y''], Some (str ''s'')))]
      (str ''a'', None) (Some (str ''s'')) =
        Some ([], [str ''x'', str ''|'', str ''y''], Some (str ''s''))"
    by (simp add: lookup_transition_def)
  have "process bar_fsm (Chars (str ''a'')) =
     Some ([], Some [(str ''x'', Some (str ''s'')), (str ''y'', Some (str ''s''))])"
    using last_token_returns_normally [OF bar_s look, of None "[]" "[]"]
    by (simp add: process_def untagged_def bar_fields example_texts FSM_postprocess_def
        str_def example_texts [unfolded str_def])
  then show ?thesis by (simp add: str_def)
qed

text \<open>
  C5, as stated, fails for the empty string: \<open>postprocess\<close> tests its text against
  \<open>None\<close> only, and wraps the empty string as a record like any other string.
\<close>

theorem postprocess_empty_string_gives_record:
  "FSM_postprocess (Some []) None (Some (str ''s'')) = [([], Some (str ''s''))]"
  by (simp add: FSM_postprocess_def)

text \<open>
  C5, amended: for every tag and state, the default \<open>postprocess\<close> wraps any text
  that is a string, the empty string included, as exactly one output record
  \<open>(text, state)\<close>, and produces no record exactly when the text is \<open>None\<close>.
\<close>

theorem postprocess_wraps_text:
  "FSM_postprocess (Some txt) tag state = [(txt, state)] \<and> FSM_postprocess None tag state = []"
  by (simp add: FSM_postprocess_def)

text \<open>
  C6: for every input token whose text has no transition in the table of the current
  state and for which \<open>transform\<close> returns \<open>None\<close>, \<open>process\<close> prints the
  diagnostic, drops the token and goes on with the rest of the input: the run is the
  run on the remaining input from the same state, output buffer and output queue, with
  the diagnostic printed; every run that returns has printed the diagnostic right after
  what was printed before; and the miss does not abort: when the token is the last one,
  the run returns the output list, with the buffer flushed as after the token before.
\<close>

theorem unrecognised_token_is_dropped:
  assumes "transitions_of self state = Some tr"
    and "map_of tr txt = None"
    and "transform self txt tag state = None"
  shows "process_loop self ((txt, tag) # rest) out_txt out_seq state printed =
           process_loop self rest out_txt out_seq state (printed @ [Not_recognised txt state])
       \<and> (\<forall>y. process_loop self ((txt, tag) # rest) out_txt out_seq state printed = Some y \<longrightarrow>
             (\<exists>more. fst y = printed @ [Not_recognised txt state] @ more))
       \<and> process_loop self [(txt, tag)] out_txt out_seq state printed =
           Some (printed @ [Not_recognised txt state],
             Some (case out_txt of None \<Rightarrow> out_seq | Some t \<Rightarrow> out_seq @ [(t, state)]))"
proof -
  have "lookup_transition self tr (txt, tag) state = None"
    using assms(2) assms(3) by (simp add: lookup_transition_def)
  from process_loop_miss [OF assms(1) this]
  have step: "process_loop self ((txt, tag) # rest) out_txt out_seq state printed =
      process_loop self rest out_txt out_seq state (printed @ [Not_recognised txt state])"
    for rest by simp
  have "\<exists>more. fst y = printed @ [Not_recognised txt state] @ more"
    if "process_loop self ((txt, tag) # rest) out_txt out_seq state printed = Some y" for y
    using printed_is_kept [OF that [unfolded step]] by simp
  then show ?thesis
    using step [of rest] step [of "[]"] by (simp add: process_loop_Nil)
qed

theorem unrecognised_token_is_dropped_witness:
  "process_loop dangling_fsm [(str ''b'', None), (str ''a'', None)] None [] (Some (str ''s'')) [] =
     Some ([Not_recognised (str ''b'') (Some (str ''s''))], Some [(str ''x'', Some (str ''t''))]) \<and>
   process_loop dangling_fsm [(str ''b'', None)] None [] (Some (str ''s'')) [] =
     Some ([Not_recognised (str ''b'') (Some (str ''s''))], Some [])"
proof -
  have miss: "map_of [(str ''a'', ([], [str ''x''], Some (str ''t'')))] (str ''b'') = None"
    by (simp add: str_def)
  have rest: "process_loop dangling_fsm [(str ''a'', None)] None [] (Some (str ''s''))
      [Not_recognised (str ''b'') (Some (str ''s''))] =
        Some ([Not_recognised (str ''b'') (Some (str ''s''))], Some [(str ''x'', Some (str ''t''))])"
    using last_token_returns_normally [OF dangling_s dangling_a, of None None "[]"
        "[Not_recognised (str ''b'') (Some (str ''s''))]"]
    by (simp add: example_texts)
  from unrecognised_token_is_dropped [OF dangling_s miss dangling_transform,
      of None "[(str ''a'', None)]" None "[]" "[]"] rest
  show ?thesis by simp
qed

section \<open>Claim about the conversion maps\<close>

text \<open>
  C9: \<open>get_conversion_maps\<close> returns two maps of exactly 64 entries each. The keys of
  the first are the 64 six-dot pattern strings, its values the 64 characters
  \<open>U+2800\<close> to \<open>U+283F\<close>; the second has these characters as keys and the patterns
  as values; and a pattern is mapped to a character by the first exactly when the
  second maps that character back to the pattern, so that each map is a bijection and
  the inverse of the other.
\<close>

theorem conversion_maps_inverse_bijections:
  "\<exists>d2u u2d. get_conversion_maps = Inr (d2u, u2d)
     \<and> length d2u = 64 \<and> length u2d = 64
     \<and> distinct (map fst d2u) \<and> distinct (map fst u2d)
     \<and> card six_dot_patterns = 64 \<and> card braille_block = 64
     \<and> fst ` set d2u = six_dot_patterns \<and> snd ` set d2u = braille_block
     \<and> fst ` set u2d = braille_block \<and> snd ` set u2d = six_dot_patterns
     \<and> (\<forall>k v. (map_of d2u k = Some v) = (map_of u2d v = Some k))"
proof -
  let ?d = "map d2u_item [0..<64]" and ?u = "map u2d_item [0..<64]"
  have dd: "distinct (map fst ?d)"
    using dot_pattern_inj_on by (simp add: distinct_map d2u_item_def comp_def)
  have du: "distinct (map fst ?u)"
    using braille_cell_inj_on by (simp add: distinct_map u2d_item_def comp_def)
  have cp: "card six_dot_patterns = 64"
    using card_image [OF dot_pattern_inj_on] by (simp add: six_dot_patterns_eq lessThan_atLeast0)
  have cb: "card braille_block = 64"
    using card_image [OF braille_cell_inj_on, of "{..<64}"] by (simp add: braille_block_eq)
  have sets: "fst ` set ?d = six_dot_patterns" "snd ` set ?d = braille_block"
    "fst ` set ?u = braille_block" "snd ` set ?u = six_dot_patterns"
    by (simp_all add: six_dot_patterns_eq braille_block_eq image_image d2u_item_def
        u2d_item_def lessThan_atLeast0)
  have inv: "\<forall>k v. (map_of ?d k = Some v) = (map_of ?u v = Some k)"
    unfolding d2u_lookup u2d_lookup by blast
  show ?thesis
    using dd du cp cb sets inv by (intro exI [of _ ?d] exI [of _ ?u]) (simp add: get_conversion_maps_eq)
qed
section \<open>Claims about the translator\<close>

text \<open>
  C7: for every string \<open>s\<close> of characters from \<open>U+2800\<close> to \<open>U+283F\<close>,
  \<open>BrailleTranslator().process(s)\<close> returns, prints nothing, and the texts of its
  output records, concatenated, are \<open>s\<close>: the output is the single record
  \<open>(s, default)\<close>, or no record when \<open>s\<close> is empty.
\<close>

theorem braille_passes_through:
  assumes "\<forall>c\<in>set s. 10240 \<le> c \<and> c \<le> 10303"
  shows "\<exists>recs. translator_process lower (Chars s) = Some (Inr ([], Some recs))
           \<and> concat (map fst recs) = s
           \<and> recs = (if s = [] then [] else [(s, Some default_state)])"
  using translator_run_cells [OF assms, where buf = None and printed = "[]" and lower = lower]
  by (simp add: translator_process_def BrailleTranslator_eq process_def translator_fsm_def)

theorem braille_passes_through_witness:
  "translator_process id (Chars [10241, 10303]) =
     Some (Inr ([], Some [([10241, 10303], Some default_state)]))"
  using braille_passes_through [where s = "[10241, 10303]" and lower = id] by simp

text \<open>
  C8: for every lower-case letter \<open>L\<close> of \<open>a\<close> to \<open>z\<close>, translating the upper-case
  form of \<open>L\<close> yields the upper-case indicator code followed by the translation of
  \<open>L\<close>, both through the tokeniser and the translator (\<open>translate\<close>) and through
  the translator alone on the string.
\<close>

theorem upper_case_rule:
  "\<exists>u. upper_code = Inr u \<and>
     (\<forall>c\<in>set lower_chars. \<exists>x.
        translate lower [c] = Some (Inr x) \<and> translate lower (upper [c]) = Some (Inr (u @ x)) \<and>
        translator_process lower (Chars [c]) = Some (Inr ([], Some [(x, Some default_state)])) \<and>
        translator_process lower (Chars (upper [c])) =
          Some (Inr ([], Some [(u @ x, Some default_state)])))"
proof -
  have "\<exists>x. translate lower [c] = Some (Inr x) \<and>
        translate lower (upper [c]) = Some (Inr (braille_cell 32 @ x)) \<and>
        translator_process lower (Chars [c]) = Some (Inr ([], Some [(x, Some default_state)])) \<and>
        translator_process lower (Chars (upper [c])) =
          Some (Inr ([], Some [(braille_cell 32 @ x, Some default_state)]))"
    if "c \<in> set lower_chars" for c
  proof -
    from that have c: "97 \<le> c" "c < 123" by (simp_all add: char_classes)
    then have C: "65 \<le> c - 32" "c - 32 < 91" and up: "upper [c] = [c - 32]"
      by (simp_all add: upper_def upper_cp_def)
    from lower_lookup [OF c] obtain n
      where l: "map_of lower_table [c] = Some ([], [braille_cell n], Some default_state)" ..
    have lt: "map_of translator_transitions [c] =
                Some ([], [braille_cell n], Some default_state)"
      using lower_letter_transition [OF c] l by simp
    have ut: "map_of translator_transitions [c - 32] =
                Some ([], [braille_cell 32, braille_cell n], Some default_state)"
      using upper_letter_transition [OF C] upper_lookup [OF l] by (simp add: up)
    let ?x = "braille_cell n"
    have "translate lower [c] = Some (Inr ?x)"
      by (rule translate_one [OF tokenise_lower [OF c] translator_one_code [OF lt]])
    moreover have "translate lower (upper [c]) = Some (Inr (braille_cell 32 @ ?x))"
      unfolding up by (rule translate_one [OF tokenise_upper [OF C] translator_two_codes [OF ut]])
    moreover have "translator_process lower (Chars [c]) = Some (Inr ([], Some [(?x, Some default_state)]))"
      by (simp add: translator_process_def BrailleTranslator_eq process_one_char
          translator_one_code [OF lt])
    moreover have "translator_process lower (Chars (upper [c])) =
        Some (Inr ([], Some [(braille_cell 32 @ ?x, Some default_state)]))"
      by (simp add: up translator_process_def BrailleTranslator_eq process_one_char
          translator_two_codes [OF ut])
    ultimately show ?thesis by blast
  qed
  with upper_code_eq show ?thesis by blast
qed

theorem upper_case_rule_witness:
  "translate id (str ''a'') = Some (Inr (braille_cell 1)) \<and>
   translate id (str ''A'') = Some (Inr (braille_cell 32 @ braille_cell 1))"
proof -
  have a: "str ''a'' = [97]" and A: "upper [97] = str ''A''" and m: "97 \<in> set lower_chars"
    by (simp_all add: str_def upper_def upper_cp_def char_classes)
  from upper_case_rule [where lower = id] obtain u
    where u: "upper_code = Inr u"
      and all: "\<forall>c\<in>set lower_chars. \<exists>x.
        translate id [c] = Some (Inr x) \<and> translate id (upper [c]) = Some (Inr (u @ x)) \<and>
        translator_process id (Chars [c]) = Some (Inr ([], Some [(x, Some default_state)])) \<and>
        translator_process id (Chars (upper [c])) =
          Some (Inr ([], Some [(u @ x, Some default_state)]))"
    by blast
  from all m obtain x where x: "translate id [97] = Some (Inr x)"
    "translate id (upper [97]) = Some (Inr (u @ x))" by blast
  have "map_of translator_transitions [97] = Some ([], [braille_cell 1], Some default_state)"
    using lower_letter_transition [of 97] letter_a by (simp add: a)
  then have "translate id [97] = Some (Inr (braille_cell 1))"
    by (intro translate_one [OF tokenise_lower translator_one_code]) simp_all
  with x u show ?thesis by (simp add: a A upper_code_eq)
qed

text \<open>
  C1 fails on the code: a single digit is a key of the translator's table (the
  \<open>number\<close> dict), and the engine asks \<open>transform\<close>, which would push the number
  indicator, only for a text that is not a key. So \<open>1\<close> is translated to the code
  of \<open>a\<close> and nothing else: the number indicator \<open>U+283C\<close> is missing, with or
  without the tokeniser.
\<close>

theorem single_digit_has_no_number_indicator:
  "translate lower (str ''1'') = Some (Inr (braille_cell 1)) \<and>
   translate lower (str ''a'') = Some (Inr (braille_cell 1)) \<and>
   number_code = Inr (braille_cell 60) \<and>
   translate lower (str ''1'') \<noteq> Some (Inr (braille_cell 60 @ braille_cell 1)) \<and>
   translator_process lower (Chars (str ''1'')) = Some (Inr ([], Some [(braille_cell 1, Some default_state)]))"
proof -
  have one: "str ''1'' = [49]" and a: "str ''a'' = [97]" by (simp_all add: str_def)
  have t1: "translate lower (str ''1'') = Some (Inr (braille_cell 1))"
    unfolding one
    by (rule translate_one [OF tokenise_digit translator_one_code])
      (simp_all add: digit_1_transition [unfolded one])
  have la: "map_of translator_transitions [97] = Some ([], [braille_cell 1], Some default_state)"
    using lower_letter_transition [of 97] letter_a by (simp add: a)
  have ta: "translate lower (str ''a'') = Some (Inr (braille_cell 1))"
    unfolding a by (rule translate_one [OF tokenise_lower translator_one_code [OF la]]) simp_all
  have d: "translator_process lower (Chars (str ''1'')) =
      Some (Inr ([], Some [(braille_cell 1, Some default_state)]))"
    by (simp add: one translator_process_def BrailleTranslator_eq process_one_char
        translator_one_code [OF digit_1_transition [unfolded one]])
  show ?thesis using t1 ta d by (simp add: number_code_eq braille_cell_def)
qed



text \<open>
  C2 fails on the code: for a one-character text that is not a key of the table and
  whose tag is neither \<open>number\<close> nor \<open>upper_str\<close>, the last branch of
  \<open>transform\<close> splits the text into its characters and so re-queues the very token
  it was given. The semicolon, which the tokeniser passes on as punctuation, is such a
  text: the run never returns.
\<close>

theorem semicolon_is_requeued_forever:
  "translator_process lower (Tokens [(str '';'', Some punctuation_tag)]) = None \<and>
   translator_process lower (Chars (str '';'')) = None \<and>
   translate lower (str '';'') = None"
proof -
  have s: "str '';'' = [59]" by (simp add: str_def)
  have t: "process (translator_fsm lower) (Tokens [([59], Some punctuation_tag)]) = None"
    unfolding process_def translator_fields
    by (simp add: semicolon_loops punctuation_tag_neq)
  have c: "process (translator_fsm lower) (Chars [59]) = None"
    unfolding process_def translator_fields
    by (simp add: semicolon_loops untagged_def)
  have "translate lower [59] = None"
    using tokenise_punct [of 59] t
    by (simp add: translate_def BrailleTranslator_eq translate_tokens_def)
  with t c show ?thesis
    by (simp add: s translator_process_def BrailleTranslator_eq)
qed


end
